theory Spec2Isabelle
  imports Main "HOL-Library.AList"
begin

section \<open>Python values used by the Fleet modules\<close>

text \<open>
  The exceptions that the modelled code can raise and that nothing in the modules catches,
  together with the two exceptions of the Fleet client library that the reconciler handles.
  \<open>APIError code text\<close> carries the HTTP status and the text that \<open>str(e)\<close> gives.
  \<open>Unmodelled\<close> marks the parts of \<open>str.format\<close> that the templates of the source never use.
\<close>

datatype py_exc =
    IndexError
  | KeyError
  | ValueError
  | AssertionError
  | IOError string
  | NotFound string
  | APIError int string
  | Unmodelled

text \<open>A Python dict, as an association list with at most one entry per key.\<close>

type_synonym ('k, 'v) dict = "('k \<times> 'v) list"

definition dict_get :: "('k, 'v) dict \<Rightarrow> 'k \<Rightarrow> 'v option" where
  "dict_get d k = map_of d k"

definition dict_set :: "('k, 'v) dict \<Rightarrow> 'k \<Rightarrow> 'v \<Rightarrow> ('k, 'v) dict" where
  "dict_set d k v = AList.update k v d"

text \<open>
  The idiom \<^verbatim>\<open>x = d.get(k, None); if not x: x = d[k] = {}\<close>: the dict stored under \<open>k\<close>,
  or a new empty one when there is none or the stored one is empty.
\<close>

definition get_or_new :: "('k, ('a, 'b) dict) dict \<Rightarrow> 'k \<Rightarrow> ('a, 'b) dict" where
  "get_or_new d k = (case dict_get d k of None \<Rightarrow> [] | Some x \<Rightarrow> if x = [] then [] else x)"

text \<open>\<^verbatim>\<open>xs[i]\<close> on a list: IndexError out of range (the source only uses indices from 0).\<close>

definition py_index :: "'a list \<Rightarrow> nat \<Rightarrow> py_exc + 'a" where
  "py_index xs i = (if i < length xs then Inr (xs ! i) else Inl IndexError)"

subsection \<open>String splitting\<close>

text \<open>\<^verbatim>\<open>s.split(sep)\<close> for a one-character separator: always at least one piece.\<close>

fun split_sep :: "char \<Rightarrow> string \<Rightarrow> string list" where
  "split_sep c [] = [[]]"
| "split_sep c (x # xs) =
     (if x = c then [] # split_sep c xs
      else (case split_sep c xs of
              [] \<Rightarrow> [[x]]
            | r # rs \<Rightarrow> (x # r) # rs))"

text \<open>The bytes for which \<^verbatim>\<open>str.isspace\<close> holds: space, tab, newline, vertical tab, form feed, return.\<close>

definition isspace :: "char \<Rightarrow> bool" where
  "isspace c = (c = CHR '' '' \<or> c = CHR 0x09 \<or> c = CHR 0x0A \<or> c = CHR 0x0B
                \<or> c = CHR 0x0C \<or> c = CHR 0x0D)"

text \<open>
  \<^verbatim>\<open>s.split(None, maxsplit)\<close>: runs of whitespace separate the tokens, leading whitespace is
  skipped, and once \<open>maxsplit\<close> tokens have been cut the rest of the string, from its first
  non-blank byte to its end, is the last piece.
\<close>

fun split_ws :: "nat \<Rightarrow> string \<Rightarrow> string list" where
  "split_ws 0 s = (let r = dropWhile isspace s in if r = [] then [] else [r])"
| "split_ws (Suc n) s =
     (let r = dropWhile isspace s in
      if r = [] then []
      else takeWhile (\<lambda>c. \<not> isspace c) r # split_ws n (dropWhile (\<lambda>c. \<not> isspace c) r))"

text \<open>\<^verbatim>\<open>s.split()\<close>: no bound on the number of pieces; a string has fewer tokens than bytes.\<close>

definition split_all :: "string \<Rightarrow> string list" where
  "split_all s = split_ws (length s) s"

text \<open>\<^verbatim>\<open>s.lower()\<close> on a byte string: the ASCII capitals only.\<close>

definition lower_char :: "char \<Rightarrow> char" where
  "lower_char c = (let n = (of_char c :: nat) in if 65 \<le> n \<and> n \<le> 90 then char_of (n + 32) else c)"

definition lower :: "string \<Rightarrow> string" where
  "lower s = map lower_char s"


section \<open>The fact parser of the fleetctl module\<close>

subsection \<open>Machine listing\<close>

text \<open>
  The dict \<^verbatim>\<open>machine_data\<close> of one row, with its keys \<^verbatim>\<open>id\<close>, \<^verbatim>\<open>ip\<close> and \<^verbatim>\<open>metadata\<close>.
  The source stores the same dict object in \<^verbatim>\<open>machines\<close> and in every index and goes on
  filling its \<^verbatim>\<open>metadata\<close> afterwards, so the indexes hold references: the number of the
  object in \<open>objects\<close>. An object is only written during the iteration of its own row; its
  content enters \<open>objects\<close> when that iteration ends.
\<close>

record machine_data =
  md_id :: string
  md_ip :: string
  md_metadata :: "(string, string) dict"

type_synonym ref = nat

type_synonym by_index = "(string, (string, ref) dict) dict"

record machine_facts =
  objects :: "machine_data list"
  fleet_machines :: "(string, ref) dict"
  by_meta :: "(string, by_index) dict"
  by_ip :: by_index
  fleet_num_machines :: "nat option"

text \<open>
  The loop over \<^verbatim>\<open>row[2].split(',')\<close>. \<open>r\<close> is the reference of the row's \<^verbatim>\<open>machine_data\<close>
  and \<open>mid\<close> its id; the state is \<^verbatim>\<open>by_meta\<close> and the row's \<^verbatim>\<open>metadata\<close> dict.
  \<^verbatim>\<open>k, v = kv.split('=')\<close> raises ValueError unless there are exactly two pieces.
\<close>

fun meta_loop :: "ref \<Rightarrow> string \<Rightarrow> string list
    \<Rightarrow> (string, by_index) dict \<times> (string, string) dict
    \<Rightarrow> py_exc + ((string, by_index) dict \<times> (string, string) dict)" where
  "meta_loop r mid [] s = Inr s"
| "meta_loop r mid (kv # kvs) (bm, metadata) =
     (if CHR ''='' \<notin> set kv then meta_loop r mid kvs (bm, metadata)
      else (case split_sep CHR ''='' kv of
              [k, v] \<Rightarrow>
                (let kmeta = get_or_new bm k;
                     vmeta = get_or_new kmeta v
                 in meta_loop r mid kvs
                      (dict_set bm k (dict_set kmeta v (dict_set vmeta mid r)),
                       dict_set metadata k v))
            | _ \<Rightarrow> Inl ValueError))"

text \<open>
  One iteration of \<^verbatim>\<open>for row in rows[1:]\<close>. The loop over \<^verbatim>\<open>by_keys = ('ip', )\<close> has its
  single iteration written out.
\<close>

definition machine_row :: "string \<Rightarrow> machine_facts \<Rightarrow> py_exc + machine_facts" where
  "machine_row line f =
     (let row = split_ws 3 line in
      if row = [] then Inr f
      else
        (case py_index row 0 of Inl e \<Rightarrow> Inl e | Inr mid \<Rightarrow>
        (case py_index row 1 of Inl e \<Rightarrow> Inl e | Inr ip \<Rightarrow>
        (let r = length (objects f) in
        (case py_index row 2 of Inl e \<Rightarrow> Inl e | Inr blob \<Rightarrow>
        (case (if blob \<noteq> [] then meta_loop r mid (split_sep CHR '','' blob) (by_meta f, [])
               else Inr (by_meta f, [])) of
           Inl e \<Rightarrow> Inl e
         | Inr (bm, metadata) \<Rightarrow>
             (let bi = (if ip \<noteq> []
                        then dict_set (by_ip f) ip (dict_set (get_or_new (by_ip f) ip) mid r)
                        else by_ip f)
              in Inr (f\<lparr>objects := objects f @ [\<lparr>md_id = mid, md_ip = ip, md_metadata = metadata\<rparr>],
                        fleet_machines := dict_set (fleet_machines f) mid r,
                        by_meta := bm,
                        by_ip := bi\<rparr>))))))))"

fun machine_rows :: "string list \<Rightarrow> machine_facts \<Rightarrow> py_exc + machine_facts" where
  "machine_rows [] f = Inr f"
| "machine_rows (line # lines) f =
     (case machine_row line f of Inl e \<Rightarrow> Inl e | Inr f' \<Rightarrow> machine_rows lines f')"

subsection \<open>Unit listing\<close>

text \<open>
  \<^verbatim>\<open>unit_data\<close> is a dict from the header's column names to the row's tokens, \<open>None\<close> for
  Python's \<^verbatim>\<open>None\<close>. It is complete before it is stored anywhere, so it is stored by value.
  A unit's key in \<^verbatim>\<open>units\<close> and in the indexes is \<^verbatim>\<open>unit_data['hash']\<close>, which may be \<^verbatim>\<open>None\<close>.
\<close>

type_synonym unit_data = "(string, string option) dict"

type_synonym units_index = "(string, (string option, unit_data) dict) dict"

record unit_facts =
  fleet_units :: "(string option, unit_data) dict"
  fleet_units_by :: "(string, units_index) dict"
  fleet_num_units :: "nat option"

text \<open>\<^verbatim>\<open>dict(pairs)\<close>: a later pair replaces an earlier one with the same key.\<close>

definition dict_of :: "('k \<times> 'v) list \<Rightarrow> ('k, 'v) dict" where
  "dict_of ps = fold (\<lambda>(k, v) d. dict_set d k v) ps []"

text \<open>\<^verbatim>\<open>v == '-' or (not v)\<close>\<close>

definition nullish :: "string option \<Rightarrow> bool" where
  "nullish v = (v = Some ''-'' \<or> v = None \<or> v = Some [])"

text \<open>\<^verbatim>\<open>for k, v in unit_data.items(): if v == '-' or (not v): unit_data[k] = None\<close>\<close>

definition normalize :: "unit_data \<Rightarrow> unit_data" where
  "normalize ud = fold (\<lambda>(k, v) d. if nullish v then dict_set d k None else d) ud ud"

text \<open>\<^verbatim>\<open>unit_data = dict(zip(header, row))\<close>, followed by the loop above.\<close>

definition make_unit_data :: "string list \<Rightarrow> string list \<Rightarrow> unit_data" where
  "make_unit_data header row = normalize (dict_of (zip header (map Some row)))"

definition by_keys :: "string list" where
  "by_keys = [''load'', ''active'', ''sub'', ''machine'']"

text \<open>
  The loop \<^verbatim>\<open>for by_key in by_keys\<close> of the unit listing; \<^verbatim>\<open>unit_data[by_key]\<close>, \<^verbatim>\<open>by[by_key]\<close>
  and \<^verbatim>\<open>unit_data['hash']\<close> raise KeyError when the key is missing.
\<close>

fun by_loop :: "string list \<Rightarrow> unit_data \<Rightarrow> (string, units_index) dict
    \<Rightarrow> py_exc + (string, units_index) dict" where
  "by_loop [] ud by = Inr by"
| "by_loop (bk # bks) ud by =
     (case dict_get ud bk of
        None \<Rightarrow> Inl KeyError
      | Some v \<Rightarrow>
          (case v of
             None \<Rightarrow> by_loop bks ud by
           | Some s \<Rightarrow>
               if s = [] then by_loop bks ud by
               else
                 (case dict_get by bk of
                    None \<Rightarrow> Inl KeyError
                  | Some idx \<Rightarrow>
                      (case dict_get ud ''hash'' of
                         None \<Rightarrow> Inl KeyError
                       | Some h \<Rightarrow>
                           by_loop bks ud
                             (dict_set by bk (dict_set idx s (dict_set (get_or_new idx s) h ud)))))))"

definition unit_row :: "string list \<Rightarrow> string \<Rightarrow> unit_facts \<Rightarrow> py_exc + unit_facts" where
  "unit_row header line f =
     (let row = split_ws 7 line in
      if row = [] then Inr f
      else
        (let unit_data = make_unit_data header row in
         (case by_loop by_keys unit_data (fleet_units_by f) of
            Inl e \<Rightarrow> Inl e
          | Inr by \<Rightarrow>
              (case dict_get unit_data ''hash'' of
                 None \<Rightarrow> Inl KeyError
               | Some h \<Rightarrow>
                   Inr (f\<lparr>fleet_units := dict_set (fleet_units f) h unit_data,
                          fleet_units_by := by\<rparr>)))))"

fun unit_rows :: "string list \<Rightarrow> string list \<Rightarrow> unit_facts \<Rightarrow> py_exc + unit_facts" where
  "unit_rows header [] f = Inr f"
| "unit_rows header (line # lines) f =
     (case unit_row header line f of Inl e \<Rightarrow> Inl e | Inr f' \<Rightarrow> unit_rows header lines f')"

subsection \<open>parse_facts\<close>

text \<open>
  The returned dict \<^verbatim>\<open>facts\<close>: empty for a command other than the two listings, and without
  its count entry when the output has a single line.
\<close>

datatype facts = NoFacts | MachineFacts machine_facts | UnitFacts unit_facts

definition parse_facts :: "string \<Rightarrow> string list option \<Rightarrow> string \<Rightarrow> py_exc + facts" where
  "parse_facts command command_args output =
     (if command = ''list-machines'' then
        (let f0 = \<lparr>objects = [], fleet_machines = [], by_meta = [], by_ip = [],
                   fleet_num_machines = None\<rparr>;
             rows = split_sep CHR 0x0A output
         in if length rows > 1 then
              (case machine_rows (tl rows) f0 of
                 Inl e \<Rightarrow> Inl e
               | Inr f \<Rightarrow>
                   Inr (MachineFacts (f\<lparr>fleet_num_machines := Some (length (fleet_machines f))\<rparr>)))
            else Inr (MachineFacts f0))
      else if command = ''list-units'' then
        (let f0 = \<lparr>fleet_units = [], fleet_units_by = map (\<lambda>by_key. (by_key, [])) by_keys,
                   fleet_num_units = None\<rparr>;
             rows = split_sep CHR 0x0A output
         in if length rows > 1 then
              (let header = map lower (split_all (hd rows)) in
               (case unit_rows header (tl rows) f0 of
                  Inl e \<Rightarrow> Inl e
                | Inr f \<Rightarrow>
                    Inr (UnitFacts (f\<lparr>fleet_num_units := Some (length (fleet_units f))\<rparr>))))
            else Inr (UnitFacts f0))
      else Inr NoFacts)"


section \<open>String formatting\<close>

text \<open>\<^verbatim>\<open>str(n)\<close> for an integer.\<close>

fun str_nat :: "nat \<Rightarrow> string" where
  "str_nat n =
     (if n < 10 then [char_of (48 + n)]
      else str_nat (n div 10) @ [char_of (48 + n mod 10)])"

definition str_int :: "int \<Rightarrow> string" where
  "str_int i = (if i < 0 then CHR ''-'' # str_nat (nat (- i)) else str_nat (nat i))"

text \<open>\<^verbatim>\<open>'%s' % x\<close> for a parameter that may be \<^verbatim>\<open>None\<close>.\<close>

definition str_opt :: "string option \<Rightarrow> string" where
  "str_opt x = (case x of None \<Rightarrow> ''None'' | Some s \<Rightarrow> s)"

text \<open>
  \<^verbatim>\<open>template.format(*args)\<close>, for arguments that are already strings. Literal text is copied,
  \<^verbatim>\<open>{{\<close> and \<^verbatim>\<open>}}\<close> stand for one brace, and a replacement field runs from its \<^verbatim>\<open>{\<close> to the
  \<^verbatim>\<open>}\<close> that matches it, counting nested braces; a lone brace, or a field that is still open
  at the end of the template, raises ValueError. A field that is a decimal number selects
  that argument (IndexError beyond the last one). Other field contents (names, attributes,
  conversions, format specs) are not used by the source and are left out.
\<close>

definition is_digit :: "char \<Rightarrow> bool" where
  "is_digit c = (48 \<le> (of_char c :: nat) \<and> (of_char c :: nat) \<le> 57)"

definition render_field :: "string \<Rightarrow> string list \<Rightarrow> py_exc + string" where
  "render_field field args =
     (if field \<noteq> [] \<and> list_all is_digit field
      then py_index args (fold (\<lambda>c n. 10 * n + (of_char c - 48)) field 0)
      else Inl Unmodelled)"

fun format_literal :: "string list \<Rightarrow> string \<Rightarrow> py_exc + string"
and format_field :: "string list \<Rightarrow> nat \<Rightarrow> string \<Rightarrow> string \<Rightarrow> py_exc + string" where
  "format_literal args [] = Inr []"
| "format_literal args (c # cs) =
     (if c = CHR ''{'' then
        (case cs of
           [] \<Rightarrow> Inl ValueError
         | d # ds \<Rightarrow>
             if d = CHR ''{'' then map_sum id ((#) c) (format_literal args ds)
             else format_field args 1 [] cs)
      else if c = CHR ''}'' then
        (case cs of
           [] \<Rightarrow> Inl ValueError
         | d # ds \<Rightarrow>
             if d = CHR ''}'' then map_sum id ((#) c) (format_literal args ds)
             else Inl ValueError)
      else map_sum id ((#) c) (format_literal args cs))"
| "format_field args count field [] = Inl ValueError"
| "format_field args count field (c # cs) =
     (if c = CHR ''{'' then format_field args (Suc count) (field @ [c]) cs
      else if c = CHR ''}'' then
        (if count \<le> 1 then
           (case render_field field args of
              Inl e \<Rightarrow> Inl e
            | Inr t \<Rightarrow> map_sum id ((@) t) (format_literal args cs))
         else format_field args (count - 1) (field @ [c]) cs)
      else format_field args count (field @ [c]) cs)"

definition py_format :: "string \<Rightarrow> string list \<Rightarrow> py_exc + string" where
  "py_format template args = format_literal args template"

section \<open>The unit reconciler of the fleet_unit module\<close>

text \<open>
  The module's parameters. \<^verbatim>\<open>state\<close> is one of the five choices of the argument spec;
  \<^verbatim>\<open>oneway\<close> stands for the truth value of the parameter and \<^verbatim>\<open>poll_retry\<close> for its integer
  value. \<^verbatim>\<open>poll_secs\<close> only sets the length of a sleep and is left out.
\<close>

datatype state_choice = Present | Started | Stopped | Restarted | Absent

type_synonym unit_options = "(string \<times> string \<times> string) list"

record params =
  p_state :: state_choice
  p_name :: "string option"
  p_src :: "string option"
  p_text :: "string option"
  p_options :: "unit_options option"
  p_oneway :: bool
  p_poll_retry :: int

text \<open>A unit as the client returns it, and the arguments of the constructor \<^verbatim>\<open>fleet.Unit\<close>.\<close>

record unit_inst =
  u_name :: string
  currentState :: string

record unit_args =
  desired_state :: string
  ua_options :: "unit_options option"
  from_file :: "string option"
  from_string :: "string option"

text \<open>
  The Fleet client library is not part of the repository: it is a parameter, a record of
  functions on a state \<open>'w\<close> of the cluster (and of the file system, for the constructor).
  A call answers with a value or raises \<^verbatim>\<open>fleet.APIError\<close>, given by its \<^verbatim>\<open>code\<close> and its
  \<^verbatim>\<open>str\<close>; the constructor answers \<open>None\<close> or the exception it raises.
\<close>

record 'w client =
  c_get_unit :: "string \<Rightarrow> 'w \<Rightarrow> ((int \<times> string) + unit_inst) \<times> 'w"
  c_destroy :: "unit_inst \<Rightarrow> 'w \<Rightarrow> ((int \<times> string) + unit) \<times> 'w"
  c_set_desired_state :: "unit_inst \<Rightarrow> string \<Rightarrow> 'w \<Rightarrow> ((int \<times> string) + string) \<times> 'w"
  c_Unit :: "unit_args \<Rightarrow> 'w \<Rightarrow> py_exc option"
  c_create_unit :: "string option \<Rightarrow> unit_args \<Rightarrow> 'w \<Rightarrow> ((int \<times> string) + unit_inst) \<times> 'w"

text \<open>Every call on the library, and every sleep, is recorded in order.\<close>

datatype event =
    EvGetUnit string
  | EvDestroy string
  | EvSetDesiredState string string
  | EvUnit unit_args
  | EvCreateUnit "string option"
  | EvSleep

type_synonym 'w run = "'w \<times> event list"

text \<open>
  How an invocation ends: \<^verbatim>\<open>module.exit_json(msg, changed)\<close>, \<^verbatim>\<open>module.fail_json(msg)\<close> (both
  leave the process), or an exception that nothing catches.
\<close>

datatype outcome = Exit "string option" bool | Fail string | Raise py_exc

definition get_unit :: "'w client \<Rightarrow> string \<Rightarrow> 'w run \<Rightarrow> (py_exc + unit_inst) \<times> 'w run" where
  "get_unit client name s =
     (case c_get_unit client name (fst s) of (res, w) \<Rightarrow>
        ((case res of
            Inl (code, text) \<Rightarrow> Inl (if code = 404 then NotFound name else APIError code text)
          | Inr inst \<Rightarrow> Inr inst),
         (w, snd s @ [EvGetUnit name])))"

definition get_unit_if_exists ::
    "'w client \<Rightarrow> string \<Rightarrow> 'w run \<Rightarrow> (py_exc + unit_inst option) \<times> 'w run" where
  "get_unit_if_exists client name s =
     (case get_unit client name s of (res, s1) \<Rightarrow>
        ((case res of
            Inl e \<Rightarrow> (case e of NotFound n \<Rightarrow> Inr None | _ \<Rightarrow> Inl e)
          | Inr inst \<Rightarrow> Inr (Some inst)),
         s1))"

text \<open>The template of the time-out message, as the source has it.\<close>

definition timeout_template :: string where
  "timeout_template = ''after {0} retries, the unit {1] was in the {2] state, expected {3}''"

text \<open>
  The \<^verbatim>\<open>while True\<close> loop of \<^verbatim>\<open>set_desired_state_or_fail\<close>; \<open>remaining\<close> falls by one in every
  round that goes on. The argument of \<^verbatim>\<open>fail_json\<close> is formatted before the call.
\<close>

function poll :: "'w client \<Rightarrow> params \<Rightarrow> unit_inst \<Rightarrow> string \<Rightarrow> int \<Rightarrow> 'w run
    \<Rightarrow> (outcome + unit_inst) \<times> 'w run" where
  "poll client p inst target_state remaining s =
     (case get_unit client (u_name inst) s of (res, s1) \<Rightarrow>
        (case res of
           Inl e \<Rightarrow>
             (case e of
                APIError code text \<Rightarrow>
                  (Inl (Fail (''could not retrieve unit '' @ u_name inst @ '': '' @ text)), s1)
              | _ \<Rightarrow> (Inl (Raise e), s1))
         | Inr inst' \<Rightarrow>
             if currentState inst' = target_state then (Inr inst', s1)
             else if remaining - 1 \<le> 0 then
               (case py_format timeout_template
                       [str_int (p_poll_retry p), u_name inst', currentState inst', target_state] of
                  Inl e \<Rightarrow> (Inl (Raise e), s1)
                | Inr m \<Rightarrow> (Inl (Fail m), s1))
             else poll client p inst' target_state (remaining - 1) (fst s1, snd s1 @ [EvSleep])))"
  by pat_completeness auto
termination
  by (relation "measure (\<lambda>(client, p, inst, target_state, remaining, s). nat remaining)") auto

declare poll.simps [simp del]

definition set_desired_state_or_fail ::
    "'w client \<Rightarrow> unit_inst \<Rightarrow> string \<Rightarrow> params \<Rightarrow> 'w run \<Rightarrow> (outcome + unit_inst) \<times> 'w run" where
  "set_desired_state_or_fail client inst state p s =
     (case c_set_desired_state client inst state (fst s) of (res, w) \<Rightarrow>
        (let s1 = (w, snd s @ [EvSetDesiredState (u_name inst) state]) in
         (case res of
            Inl (code, text) \<Rightarrow>
              (Inl (Fail (''could not retrieve unit '' @ u_name inst @ '': '' @ text)), s1)
          | Inr target_state \<Rightarrow>
              if target_state \<noteq> state then
                (Inl (Fail (''could not set state to '' @ state @ '' for unit '' @ u_name inst
                            @ '': currentState='' @ target_state)), s1)
              else if \<not> p_oneway p then poll client p inst target_state (p_poll_retry p) s1
              else (Inr inst, s1))))"

text \<open>\<^verbatim>\<open>x or None\<close> followed by a truth test: set and not empty.\<close>

definition given :: "'a list option \<Rightarrow> bool" where
  "given x = (case x of None \<Rightarrow> False | Some v \<Rightarrow> v \<noteq> [])"

definition or_None :: "'a list option \<Rightarrow> 'a list option" where
  "or_None x = (if given x then x else None)"

definition create_unit_or_fail ::
    "'w client \<Rightarrow> params \<Rightarrow> string option \<Rightarrow> string \<Rightarrow> 'w run \<Rightarrow> (outcome + unit_inst) \<times> 'w run" where
  "create_unit_or_fail client p name state s =
     (let options = or_None (p_options p);
          file = or_None (p_src p);
          text = or_None (p_text p);
          n = (if given options then 1 else 0) + (if given file then 1 else 0)
              + (if given text then (1::nat) else 0)
      in if n = 0 \<or> n > 1 then
           (Inl (Fail ''one and only of {text, options, from_file} must be specified''), s)
         else
           (let args = \<lparr>desired_state = state, ua_options = options, from_file = file,
                        from_string = text\<rparr>;
                s1 = (fst s, snd s @ [EvUnit args])
            in (case c_Unit client args (fst s) of
                  Some e \<Rightarrow>
                    (case e of
                       IOError text \<Rightarrow>
                         if given file then
                           (Inl (Fail (''unable to create unit from_file='' @ str_opt file
                                       @ '': '' @ text)), s1)
                         else (Inl (Raise e), s1)
                     | _ \<Rightarrow> (Inl (Raise e), s1))
                | None \<Rightarrow>
                    (case c_create_unit client name args (fst s1) of (res, w) \<Rightarrow>
                       (let s2 = (w, snd s1 @ [EvCreateUnit name]) in
                        (case res of
                           Inl (code, text) \<Rightarrow>
                             (Inl (Fail (''could not create unit '' @ str_opt name @ '': '' @ text)), s2)
                         | Inr inst \<Rightarrow> (Inr inst, s2)))))))"


text \<open>
  The function \<^verbatim>\<open>unit\<close>. After the look-up the locals \<^verbatim>\<open>inst\<close>, \<^verbatim>\<open>msg\<close> and \<^verbatim>\<open>changed\<close> pass
  through the block for \<^verbatim>\<open>stopped\<close> and \<^verbatim>\<open>restarted\<close>, then through the \<^verbatim>\<open>if\<close> for \<^verbatim>\<open>started\<close>
  and \<^verbatim>\<open>restarted\<close>, whose \<^verbatim>\<open>else\<close> branch asserts that the state is \<^verbatim>\<open>present\<close>.
\<close>

definition unit :: "'w client \<Rightarrow> params \<Rightarrow> 'w run \<Rightarrow> outcome \<times> 'w run" where
  "unit client p s =
     (let state = p_state p; name = p_name p in
      if state = Absent then
        (if \<not> given name then (Fail ''name is required'', s)
         else
           (case get_unit client (str_opt name) s of (res, s1) \<Rightarrow>
              (case res of
                 Inl e \<Rightarrow>
                   (case e of
                      NotFound n \<Rightarrow>
                        (Exit (Some (''unit did not exist: '' @ str_opt name)) False, s1)
                    | APIError code text \<Rightarrow>
                        (Fail (''could not destroy unit '' @ str_opt name @ '': '' @ text), s1)
                    | _ \<Rightarrow> (Raise e, s1))
               | Inr inst \<Rightarrow>
                   (case c_destroy client inst (fst s1) of (res2, w) \<Rightarrow>
                      (let s2 = (w, snd s1 @ [EvDestroy (u_name inst)]) in
                       (case res2 of
                          Inl (code, text) \<Rightarrow>
                            (Fail (''could not destroy unit '' @ str_opt name @ '': '' @ text), s2)
                        | Inr u \<Rightarrow>
                            (Exit (Some (''destroyed existing unit '' @ str_opt name)) True, s2)))))))
      else
        (case (if given name then get_unit_if_exists client (str_opt name) s
               else (Inr None, s)) of (res, s1) \<Rightarrow>
           (case res of
              Inl e \<Rightarrow>
                (case e of
                   APIError code text \<Rightarrow>
                     (Fail (''could not retrieve unit '' @ str_opt name @ '': '' @ text), s1)
                 | _ \<Rightarrow> (Raise e, s1))
            | Inr inst0 \<Rightarrow>
                (case (if state = Stopped \<or> state = Restarted then
                         (case inst0 of
                            None \<Rightarrow>
                              (Inr (inst0, Some (''unit did not exist: '' @ str_opt name), False), s1)
                          | Some i \<Rightarrow>
                              if currentState i = ''launched'' then
                                (case set_desired_state_or_fail client i ''inactive'' p s1 of
                                   (r, s2) \<Rightarrow>
                                     (case r of
                                        Inl out \<Rightarrow> (Inl out, s2)
                                      | Inr i' \<Rightarrow>
                                          (Inr (Some i',
                                                Some (''unit '' @ str_opt name @ '' stopped''),
                                                True), s2)))
                              else
                                (Inr (inst0,
                                      Some (''unit '' @ str_opt name @ '' already stopped''),
                                      False), s1))
                       else (Inr (inst0, None, False), s1)) of (r1, s2) \<Rightarrow>
                   (case r1 of
                      Inl out \<Rightarrow> (out, s2)
                    | Inr (inst1, msg1, changed1) \<Rightarrow>
                        if state = Started \<or> state = Restarted then
                          (case inst1 of
                             None \<Rightarrow>
                               (case create_unit_or_fail client p name ''launched'' s2 of
                                  (r, s3) \<Rightarrow>
                                    (case r of
                                       Inl out \<Rightarrow> (out, s3)
                                     | Inr i \<Rightarrow>
                                         (Exit (Some (''unit '' @ str_opt name
                                                      @ '' created and started'')) True, s3)))
                           | Some i \<Rightarrow>
                               if currentState i \<noteq> ''launched'' then
                                 (case set_desired_state_or_fail client i ''launched'' p s2 of
                                    (r, s3) \<Rightarrow>
                                      (case r of
                                         Inl out \<Rightarrow> (out, s3)
                                       | Inr i' \<Rightarrow>
                                           (Exit (Some (''existing unit '' @ str_opt name
                                                        @ '' was started'')) True, s3)))
                               else
                                 (Exit (Some (''existing unit '' @ str_opt name
                                              @ '' has already started'')) changed1, s2))
                        else if state \<noteq> Present then (Raise AssertionError, s2)
                        else
                          (case inst1 of
                             None \<Rightarrow>
                               (case create_unit_or_fail client p name ''loaded'' s2 of
                                  (r, s3) \<Rightarrow>
                                    (case r of
                                       Inl out \<Rightarrow> (out, s3)
                                     | Inr i \<Rightarrow>
                                         (Exit (Some (''unit '' @ str_opt name
                                                      @ '' created (but not started)'')) True, s3)))
                           | Some i \<Rightarrow>
                               (Exit (Some (''existing unit '' @ str_opt name
                                            @ '' state unchanged from '' @ currentState i))
                                  changed1, s2)))))))"

text \<open>
  A cluster for the examples: the state is the dict of the units' current states, a look-up
  of a missing unit answers with code 404, a desired state is accepted and the current state
  never follows it, the constructor and the creation succeed.
\<close>

definition idle_cluster :: "(string, string) dict client" where
  "idle_cluster =
     \<lparr>c_get_unit = (\<lambda>name w.
        ((case dict_get w name of
            None \<Rightarrow> Inl (404, ''unit not found'')
          | Some st \<Rightarrow> Inr \<lparr>u_name = name, currentState = st\<rparr>), w)),
      c_destroy = (\<lambda>inst w. (Inr (), AList.delete (u_name inst) w)),
      c_set_desired_state = (\<lambda>inst state w. (Inr state, w)),
      c_Unit = (\<lambda>args w. None),
      c_create_unit = (\<lambda>name args w.
        (Inr \<lparr>u_name = str_opt name, currentState = ''inactive''\<rparr>,
         dict_set w (str_opt name) ''inactive''))\<rparr>"

definition default_params :: params where
  "default_params =
     \<lparr>p_state = Started, p_name = None, p_src = None, p_text = None, p_options = None,
      p_oneway = False, p_poll_retry = 10\<rparr>"

section \<open>The main function of the fleetctl module\<close>

record fleet_params =
  fp_binary :: string
  fp_command :: string
  fp_unit :: "string option"
  fp_extra_args :: "string option"
  fp_debug :: bool
  fp_strict_host_key_checking :: bool
  fp_endpoint :: string
  fp_known_hosts_file :: string
  fp_tunnel :: string

text \<open>
  The standard library functions that \<^verbatim>\<open>main\<close> calls are parameters: \<^verbatim>\<open>pipes.quote\<close>,
  \<^verbatim>\<open>shlex.split\<close> (which may raise) and \<^verbatim>\<open>subprocess.check_output\<close>, which answers with the
  output or raises \<^verbatim>\<open>CalledProcessError\<close>, given by its return code, output and text.
\<close>

record environment =
  pipes_quote :: "string \<Rightarrow> string"
  shlex_split :: "string \<Rightarrow> py_exc + string list"
  check_output :: "string list \<Rightarrow> (int \<times> string \<times> string) + string"

definition CMD_ARGS :: "(string, string list) dict" where
  "CMD_ARGS =
     [(''list-machines'',
       [''-full=true'', ''-fields=machine,ip,metadata'', ''-no-legend=false'']),
      (''list-units'',
       [''-full=true'', ''-fields=hash,unit,load,active,sub,machine'', ''-no-legend=false''])]"

datatype pyval = PBool bool | PStr string

text \<open>The local function \<^verbatim>\<open>argh\<close>: a Boolean is printed as it is, a non-empty string quoted.\<close>

definition argh :: "environment \<Rightarrow> string \<Rightarrow> pyval \<Rightarrow> string list \<Rightarrow> string list" where
  "argh env name v args =
     (case v of
        PBool b \<Rightarrow> args @ [''-'' @ name @ ''='' @ (if b then ''True'' else ''False'')]
      | PStr x \<Rightarrow> if x \<noteq> [] then args @ [''-'' @ name @ ''='' @ pipes_quote env x] else args)"

definition unit_commands :: "string list" where
  "unit_commands = [''submit'', ''verify'', ''start'', ''stop'', ''status'', ''destroy'',
                    ''load'', ''unload'', ''cat'', ''journal'']"

record exit_result =
  r_changed :: bool
  r_msg :: string
  r_output :: string
  r_ansible_facts :: facts

datatype main_outcome =
    ExitJson exit_result
  | FailMsg string
  | FailProcess int string string
  | Uncaught py_exc

definition main :: "environment \<Rightarrow> fleet_params \<Rightarrow> main_outcome" where
  "main env p =
     (let args0 = [fp_binary p];
          args1 = argh env ''debug'' (PBool (fp_debug p)) args0;
          args2 = argh env ''strict-host-key-checking'' (PBool (fp_strict_host_key_checking p)) args1;
          args3 = argh env ''endpoint'' (PStr (fp_endpoint p)) args2;
          args4 = argh env ''known-hosts-file'' (PStr (fp_known_hosts_file p)) args3;
          args5 = argh env ''tunnel'' (PStr (fp_tunnel p)) args4;
          args6 = args5 @ [fp_command p]
      in (case (if given (fp_extra_args p)
                then map_sum id ((@) args6) (shlex_split env (str_opt (fp_extra_args p)))
                else Inr args6) of
            Inl e \<Rightarrow> Uncaught e
          | Inr args7 \<Rightarrow>
              (let command_args = dict_get CMD_ARGS (fp_command p);
                   args8 = (case command_args of
                              None \<Rightarrow> args7
                            | Some ca \<Rightarrow> if ca \<noteq> [] then args7 @ ca else args7)
               in if fp_command p \<in> set unit_commands \<and> \<not> given (fp_unit p) then
                    FailMsg (''unit argument required for command='' @ fp_command p)
                  else
                    (let args9 = (if fp_command p \<in> set unit_commands
                                  then args8 @ [str_opt (fp_unit p)] else args8)
                     in (case check_output env args9 of
                           Inl (returncode, out, text) \<Rightarrow> FailProcess returncode out text
                         | Inr out \<Rightarrow>
                             (case parse_facts (fp_command p) command_args out of
                                Inl e \<Rightarrow> Uncaught e
                              | Inr ansible_facts \<Rightarrow>
                                  ExitJson \<lparr>r_changed = True, r_msg = ''OK'', r_output = out,
                                            r_ansible_facts = ansible_facts\<rparr>))))))"


text \<open>
  An environment for the examples: \<^verbatim>\<open>fleetctl\<close> prints \<open>out\<close> whatever its arguments are,
  nothing needs quoting, and the extra arguments are split at whitespace. The parameters are
  the defaults of the argument spec, with the command \<^verbatim>\<open>list-machines\<close>.
\<close>

definition listing_env :: "string \<Rightarrow> environment" where
  "listing_env out =
     \<lparr>pipes_quote = (\<lambda>x. x), shlex_split = (\<lambda>x. Inr (split_all x)),
      check_output = (\<lambda>args. Inr out)\<rparr>"

definition default_fleet_params :: fleet_params where
  "default_fleet_params =
     \<lparr>fp_binary = ''fleetctl'', fp_command = ''list-machines'', fp_unit = None,
      fp_extra_args = None, fp_debug = False, fp_strict_host_key_checking = True,
      fp_endpoint = ''http://127.0.0.1:4001'', fp_known_hosts_file = ''~/.fleetctl/known_hosts'',
      fp_tunnel = []\<rparr>"

section \<open>Reading the facts, and the listings the parser is written for\<close>

text \<open>Look-ups through two and three levels of nested dicts: \<^verbatim>\<open>d[a][b]\<close> and \<^verbatim>\<open>d[a][b][c]\<close>.\<close>

definition dict_get2 :: "('a, ('b, 'v) dict) dict \<Rightarrow> 'a \<Rightarrow> 'b \<Rightarrow> 'v option" where
  "dict_get2 d a b = (case dict_get d a of None \<Rightarrow> None | Some x \<Rightarrow> dict_get x b)"

definition dict_get3 :: "('a, ('b, ('c, 'v) dict) dict) dict \<Rightarrow> 'a \<Rightarrow> 'b \<Rightarrow> 'c \<Rightarrow> 'v option" where
  "dict_get3 d a b c = (case dict_get d a of None \<Rightarrow> None | Some x \<Rightarrow> dict_get2 x b c)"

text \<open>
  The data rows of a machine listing: the lines after the first, cut into tokens as the
  parser cuts them, without the blank lines. The metadata pairs of a row are the segments of
  its third token that hold exactly one \<^verbatim>\<open>=\<close>.
\<close>

definition lines_of :: "string \<Rightarrow> string list" where
  "lines_of text = split_sep CHR 0x0A text"

definition machine_rows_of :: "string \<Rightarrow> string list list" where
  "machine_rows_of text = filter (\<lambda>row. row \<noteq> []) (map (split_ws 3) (tl (lines_of text)))"

definition kv_pairs :: "string list \<Rightarrow> (string \<times> string) list" where
  "kv_pairs kvs =
     concat (map (\<lambda>kv. case split_sep CHR ''='' kv of [k, v] \<Rightarrow> [(k, v)] | _ \<Rightarrow> []) kvs)"

definition row_pairs :: "string list \<Rightarrow> (string \<times> string) list" where
  "row_pairs row = kv_pairs (split_sep CHR '','' (row ! 2))"

text \<open>
  A row the machine parser accepts: at least three tokens, and no segment of the third with
  more than one \<^verbatim>\<open>=\<close>. A well-formed machine listing has only such rows, no metadata key
  twice in a row, and no machine id twice.
\<close>

definition machine_row_ok :: "string list \<Rightarrow> bool" where
  "machine_row_ok row =
     (3 \<le> length row
      \<and> list_all (\<lambda>kv. length (split_sep CHR ''='' kv) \<le> 2) (split_sep CHR '','' (row ! 2)))"

definition machine_listing_wf :: "string \<Rightarrow> bool" where
  "machine_listing_wf text =
     (list_all (\<lambda>row. machine_row_ok row \<and> distinct (map fst (row_pairs row)))
        (machine_rows_of text)
      \<and> distinct (map hd (machine_rows_of text)))"

text \<open>
  The unit listing: its columns, its data rows, and the value a token has in \<^verbatim>\<open>unit_data\<close>.
  A row the unit parser accepts has a token for \<^verbatim>\<open>hash\<close> and for each of the four indexed
  columns of the header. A well-formed unit listing has the six columns as its header, six
  tokens or more in each row, and no hash twice.
\<close>

definition unit_columns :: "string list" where
  "unit_columns = [''hash'', ''unit'', ''load'', ''active'', ''sub'', ''machine'']"

definition unit_rows_of :: "string \<Rightarrow> string list list" where
  "unit_rows_of text = filter (\<lambda>row. row \<noteq> []) (map (split_ws 7) (tl (lines_of text)))"

definition unit_header_of :: "string \<Rightarrow> string list" where
  "unit_header_of text = map lower (split_all (hd (lines_of text)))"

definition norm_tok :: "string \<Rightarrow> string option" where
  "norm_tok t = (if t = ''-'' \<or> t = [] then None else Some t)"

definition unit_row_ok :: "string list \<Rightarrow> string list \<Rightarrow> bool" where
  "unit_row_ok header row =
     list_all (\<lambda>k. k \<in> set (take (length row) header)) (''hash'' # by_keys)"

definition unit_listing_wf :: "string \<Rightarrow> bool" where
  "unit_listing_wf text =
     (unit_header_of text = unit_columns
      \<and> list_all (\<lambda>row. 6 \<le> length row) (unit_rows_of text)
      \<and> distinct (map hd (unit_rows_of text)))"

text \<open>The listings on which \<^verbatim>\<open>parse_facts\<close> is shown to return.\<close>

definition listing_ok :: "string \<Rightarrow> string \<Rightarrow> bool" where
  "listing_ok command text =
     (if command = ''list-machines'' then list_all machine_row_ok (machine_rows_of text)
      else if command = ''list-units''
      then list_all (unit_row_ok (unit_header_of text)) (unit_rows_of text)
      else True)"

text \<open>
  A row is recorded in the facts when its id refers to an object with the row's id and ip,
  and each metadata pair of the row is in the object's metadata and has the id, with the
  same object, in \<^verbatim>\<open>by_meta\<close> under its key and value.
\<close>

definition machine_recorded :: "machine_facts \<Rightarrow> string list \<Rightarrow> bool" where
  "machine_recorded f row =
     (case dict_get (fleet_machines f) (row ! 0) of
        None \<Rightarrow> False
      | Some r \<Rightarrow>
          r < length (objects f) \<and> md_id (objects f ! r) = row ! 0
          \<and> md_ip (objects f ! r) = row ! 1
          \<and> list_all (\<lambda>(k, v). dict_get (md_metadata (objects f ! r)) k = Some v
                          \<and> dict_get3 (by_meta f) k v (row ! 0) = Some r)
               (row_pairs row))"

text \<open>
  Two listings for the examples: two machines, the second one without metadata (where
  \<^verbatim>\<open>fleetctl\<close> prints a dash), and two units, the second one not loaded anywhere.
\<close>

definition sample_machines :: string where
  "sample_machines =
     ''MACHINE IP METADATA'' @ [CHR 0x0A]
     @ ''bc85e23c 1.1.1.1 key1=val1,key2=val2'' @ [CHR 0x0A]
     @ ''d2f17670 2.2.2.2 -'' @ [CHR 0x0A]"

definition sample_units :: string where
  "sample_units =
     ''HASH UNIT LOAD ACTIVE SUB MACHINE'' @ [CHR 0x0A]
     @ ''2783a93 registry.service loaded active running 2f1d2afe/192.168.1.1'' @ [CHR 0x0A]
     @ ''5c4e1a0 hello.service - - - -'' @ [CHR 0x0A]"

text \<open>
  A unit listing in which two units share a hash, as the instances of one template do.
\<close>

definition shared_hash_units :: string where
  "shared_hash_units =
     ''HASH UNIT LOAD ACTIVE SUB MACHINE'' @ [CHR 0x0A]
     @ ''abc a@1.service loaded active running m1'' @ [CHR 0x0A]
     @ ''abc a@2.service - - - -'' @ [CHR 0x0A]"

text \<open>
  A row of a unit listing is recorded in the facts when its hash refers to a record that
  has, for each of the six columns, the row's token (null for a dash), and when each index
  holds the hash, with that record, under the record's value for the index's field and under
  no other value; so under no value at all when the field is null.
\<close>

definition unit_recorded :: "unit_facts \<Rightarrow> string list \<Rightarrow> bool" where
  "unit_recorded f row =
     (case dict_get (fleet_units f) (norm_tok (row ! 0)) of
        None \<Rightarrow> False
      | Some ud \<Rightarrow>
          (\<forall>j < 6. dict_get ud (unit_columns ! j) = Some (norm_tok (row ! j)))
          \<and> (\<forall>bk \<in> set by_keys. \<forall>v.
                dict_get3 (fleet_units_by f) bk v (norm_tok (row ! 0))
                  = (if dict_get ud bk = Some (Some v) then Some ud else None)))"

section \<open>Properties of the unit reconciler\<close>

lemma given_or_None: "given (or_None x) = given x"
  by (simp add: or_None_def given_def)

lemma create_unit_or_fail_invalid:
  assumes "length (filter id [given (p_options p), given (p_src p), given (p_text p)]) \<noteq> 1"
  shows "create_unit_or_fail client p name state s
     = (Inl (Fail ''one and only of {text, options, from_file} must be specified''), s)"
  using assms
  by (cases "given (p_options p)"; cases "given (p_src p)"; cases "given (p_text p)")
     (simp_all add: create_unit_or_fail_def given_or_None Let_def)

lemma timeout_template_raises: "py_format timeout_template (a # args) = Inl ValueError"
  by (simp add: py_format_def timeout_template_def render_field_def is_digit_def py_index_def)

text \<open>
  Neither the polling loop nor the change of the desired state ends the invocation with
  \<^verbatim>\<open>exit_json\<close>; so a request for \<^verbatim>\<open>stopped\<close> never exits normally, on any cluster: it fails
  in the look-up or in the change of state, or it reaches the assertion.
\<close>

lemma poll_not_exit: "fst (poll client p inst t r s) \<noteq> Inl (Exit m c)"
proof (induction client p inst t r s rule: poll.induct)
  case (1 client p inst target_state remaining s)
  show ?case
    by (subst poll.simps) (use 1 in \<open>auto split: prod.splits sum.splits py_exc.splits\<close>)
qed

lemma set_desired_state_or_fail_not_exit:
  "fst (set_desired_state_or_fail client inst state p s) \<noteq> Inl (Exit m c)"
  using poll_not_exit [of client p inst]
  by (auto simp: set_desired_state_or_fail_def Let_def split: prod.splits sum.splits)

lemma stopped_never_exits:
  assumes "p_state p = Stopped"
  shows "fst (unit client p s) \<noteq> Exit m c"
proof -
  obtain res s1 where lk:
    "(if given (p_name p) then get_unit_if_exists client (str_opt (p_name p)) s
      else (Inr None, s)) = (res, s1)"
    by (cases "if given (p_name p) then get_unit_if_exists client (str_opt (p_name p)) s
               else (Inr None, s)") auto
  show ?thesis
  proof (cases res)
    case (Inl e)
    with assms lk show ?thesis
      by (cases e) (simp_all add: unit_def)
  next
    case (Inr inst0)
    show ?thesis
    proof (cases inst0)
      case None
      with assms lk Inr show ?thesis by (simp add: unit_def)
    next
      case (Some i)
      obtain r s2 where sd: "set_desired_state_or_fail client i ''inactive'' p s1 = (r, s2)"
        by (cases "set_desired_state_or_fail client i ''inactive'' p s1") auto
      with set_desired_state_or_fail_not_exit [of client i "''inactive''" p s1 m c]
      have "r \<noteq> Inl (Exit m c)" by simp
      with assms lk Inr Some sd show ?thesis
        by (cases r) (simp_all add: unit_def Let_def)
    qed
  qed
qed

text \<open>The last round of the polling loop, when the unit is still not in the target state.\<close>

lemma poll_last_round:
  assumes "get_unit client (u_name inst) s = (Inr inst', s1)"
    and "currentState inst' \<noteq> target_state" and "remaining - 1 \<le> 0"
  shows "poll client p inst target_state remaining s = (Inl (Raise ValueError), s1)"
  by (subst poll.simps) (use assms in \<open>simp add: timeout_template_raises\<close>)

text \<open>
  C1. The claim: a request for the state \<^verbatim>\<open>stopped\<close> always completes, with
  \<^verbatim>\<open>changed=false\<close> and a message when the unit is absent, and never aborts with an assertion.
  The code does otherwise: after the block for \<^verbatim>\<open>stopped\<close> the state is not \<^verbatim>\<open>started\<close> or
  \<^verbatim>\<open>restarted\<close>, so control reaches \<^verbatim>\<open>assert state == 'present'\<close>. For the absent unit
  \<^verbatim>\<open>foo.service\<close> the invocation ends in an AssertionError, after the look-up.
\<close>

theorem stopped_raises_assertion:
  "unit idle_cluster (default_params\<lparr>p_state := Stopped, p_name := Some ''foo.service''\<rparr>) ([], [])
     = (Raise AssertionError, [], [EvGetUnit ''foo.service''])"
  by code_simp

text \<open>
  C4. The claim as amended: when a unit has to be created (the state is \<^verbatim>\<open>present\<close>,
  \<^verbatim>\<open>started\<close> or \<^verbatim>\<open>restarted\<close> and the look-up answers not-found, or no name is given) and the
  number of sources given among \<^verbatim>\<open>options\<close>, \<^verbatim>\<open>src\<close> and \<^verbatim>\<open>text\<close> is not one, the invocation
  fails with the validation message before the unit is constructed and before any create
  request; the only call made before it is the look-up of the named unit.
\<close>

theorem create_validation_precedes_construction:
  assumes "p_state p = Present \<or> p_state p = Started \<or> p_state p = Restarted"
    and "length (filter id [given (p_options p), given (p_src p), given (p_text p)]) \<noteq> 1"
    and "given (p_name p) \<longrightarrow> c_get_unit client (str_opt (p_name p)) (fst s) = (Inl (404, text), w)"
  shows "unit client p s
     = (Fail ''one and only of {text, options, from_file} must be specified'',
        (if given (p_name p) then (w, snd s @ [EvGetUnit (str_opt (p_name p))]) else s))"
proof (cases "given (p_name p)")
  case True
  with assms(3) have "get_unit_if_exists client (str_opt (p_name p)) s
      = (Inr None, (w, snd s @ [EvGetUnit (str_opt (p_name p))]))"
    by (simp add: get_unit_if_exists_def get_unit_def)
  with True assms(1) show ?thesis
    by (auto simp: unit_def create_unit_or_fail_invalid [OF assms(2)])
next
  case False
  with assms(1) show ?thesis
    by (auto simp: unit_def create_unit_or_fail_invalid [OF assms(2)])
qed

text \<open>The amended claim at work: \<^verbatim>\<open>started\<close> for an absent unit, with no source at all.\<close>

theorem create_validation_precedes_construction_witness:
  "unit idle_cluster (default_params\<lparr>p_name := Some ''foo.service''\<rparr>) ([], [])
     = (Fail ''one and only of {text, options, from_file} must be specified'',
        ([], [EvGetUnit ''foo.service'']))"
  using create_validation_precedes_construction
    [of "default_params\<lparr>p_name := Some ''foo.service''\<rparr>" idle_cluster "([], [])"
        "''unit not found''" "[]"]
  by (simp add: default_params_def idle_cluster_def dict_get_def given_def str_opt_def)

text \<open>
  The claim as it was stated fails: with both an inline text and an options list, the
  validation error comes after a remote call, the look-up of the unit.
\<close>

theorem validation_after_lookup:
  "unit idle_cluster
     (default_params\<lparr>p_state := Present, p_name := Some ''foo.service'', p_text := Some ''[Unit]'',
        p_options := Some [(''Unit'', ''After'', ''docker.service'')]\<rparr>) ([], [])
   = (Fail ''one and only of {text, options, from_file} must be specified'',
      [], [EvGetUnit ''foo.service''])"
  by code_simp

text \<open>
  C5. The claim: when the polling budget runs out the operation fails with a time-out
  message naming the retries, the unit, the last observed state and the target. The code
  does otherwise: the template of the message has \<^verbatim>\<open>{1]\<close> and \<^verbatim>\<open>{2]\<close> for \<^verbatim>\<open>{1}\<close> and \<^verbatim>\<open>{2}\<close>,
  so formatting it raises ValueError before \<^verbatim>\<open>fail_json\<close> is called. Here \<^verbatim>\<open>started\<close> is
  requested for an inactive unit that never starts, with the default ten retries.
\<close>

theorem timeout_raises_value_error:
  "fst (unit idle_cluster (default_params\<lparr>p_state := Started, p_name := Some ''foo.service''\<rparr>)
      ([(''foo.service'', ''inactive'')], [])) = Raise ValueError"
  by code_simp

text \<open>
  C8. For the state \<^verbatim>\<open>absent\<close> and a named unit whose look-up answers not-found (code 404),
  the invocation exits with \<^verbatim>\<open>changed=False\<close> and the message that the unit did not exist;
  the look-up is the only call made.
\<close>

theorem absent_not_found:
  assumes "p_state p = Absent" and "p_name p = Some name" and "name \<noteq> []"
    and "c_get_unit client name (fst s) = (Inl (404, text), w)"
  shows "unit client p s
     = (Exit (Some (''unit did not exist: '' @ name)) False, (w, snd s @ [EvGetUnit name]))"
  using assms by (simp add: unit_def get_unit_def given_def str_opt_def)

theorem absent_not_found_witness:
  "unit idle_cluster (default_params\<lparr>p_state := Absent, p_name := Some ''foo.service''\<rparr>) ([], [])
     = (Exit (Some ''unit did not exist: foo.service'') False, ([], [EvGetUnit ''foo.service'']))"
  using absent_not_found
    [of "default_params\<lparr>p_state := Absent, p_name := Some ''foo.service''\<rparr>" "''foo.service''"
        idle_cluster "([], [])" "''unit not found''" "[]"]
  by (simp add: default_params_def idle_cluster_def dict_get_def)

text \<open>
  C9. For the state \<^verbatim>\<open>present\<close> and a named unit that the look-up finds, the invocation exits
  with \<^verbatim>\<open>changed=False\<close> whatever the unit's current state is, and the look-up is the only
  call it makes. A second request, on the cluster as the first one left it, again exits with
  \<^verbatim>\<open>changed=False\<close>.
\<close>

theorem present_existing_unchanged:
  assumes "p_state p = Present" and "p_name p = Some name" and "name \<noteq> []"
    and "c_get_unit client name w0 = (Inr i1, w1)"
    and "c_get_unit client name w1 = (Inr i2, w2)"
  shows "unit client p (w0, evs)
       = (Exit (Some (''existing unit '' @ name @ '' state unchanged from '' @ currentState i1)) False,
          (w1, evs @ [EvGetUnit name]))
     \<and> unit client p (w1, evs @ [EvGetUnit name])
       = (Exit (Some (''existing unit '' @ name @ '' state unchanged from '' @ currentState i2)) False,
          (w2, evs @ [EvGetUnit name, EvGetUnit name]))"
  using assms by (simp add: unit_def get_unit_if_exists_def get_unit_def given_def str_opt_def)

theorem present_existing_unchanged_witness:
  "unit idle_cluster (default_params\<lparr>p_state := Present, p_name := Some ''foo.service''\<rparr>)
       ([(''foo.service'', ''launched'')], [])
     = (Exit (Some ''existing unit foo.service state unchanged from launched'') False,
        ([(''foo.service'', ''launched'')], [EvGetUnit ''foo.service'']))
   \<and> unit idle_cluster (default_params\<lparr>p_state := Present, p_name := Some ''foo.service''\<rparr>)
       ([(''foo.service'', ''launched'')], [EvGetUnit ''foo.service''])
     = (Exit (Some ''existing unit foo.service state unchanged from launched'') False,
        ([(''foo.service'', ''launched'')], [EvGetUnit ''foo.service'', EvGetUnit ''foo.service'']))"
  using present_existing_unchanged
    [of "default_params\<lparr>p_state := Present, p_name := Some ''foo.service''\<rparr>" "''foo.service''"
        idle_cluster "[(''foo.service'', ''launched'')]"
        "\<lparr>u_name = ''foo.service'', currentState = ''launched''\<rparr>"
        "[(''foo.service'', ''launched'')]"
        "\<lparr>u_name = ''foo.service'', currentState = ''launched''\<rparr>"
        "[(''foo.service'', ''launched'')]" "[]"]
  by (simp add: default_params_def idle_cluster_def dict_get_def)

section \<open>Properties of the fleetctl module\<close>

text \<open>
  C3. The claim: the row \<^verbatim>\<open>d2f17670 2.2.2.2\<close> followed by a blank, with no metadata, gives a
  record with an empty metadata dict. The code does otherwise: splitting at whitespace gives
  two tokens for this row, and \<^verbatim>\<open>row[2]\<close> raises IndexError.
\<close>

theorem no_metadata_row_raises:
  "parse_facts ''list-machines'' (dict_get CMD_ARGS ''list-machines'')
     (''MACHINE IP METADATA'' @ [CHR 0x0A] @ ''d2f17670 2.2.2.2 '') = Inl IndexError"
  by code_simp

text \<open>
  C10. Whenever the module exits successfully, its result has \<^verbatim>\<open>changed=True\<close>, whatever the
  command and whatever \<^verbatim>\<open>fleetctl\<close> printed.
\<close>

theorem main_exit_changed: "main env p = ExitJson r \<Longrightarrow> r_changed r = True"
  by (auto simp: main_def Let_def split: sum.splits if_splits prod.splits)

text \<open>The read-only command \<^verbatim>\<open>list-machines\<close>, on a listing without machines.\<close>

theorem main_exit_changed_witness:
  "main (listing_env (''MACHINE IP METADATA'' @ [CHR 0x0A])) default_fleet_params
     = ExitJson \<lparr>r_changed = True, r_msg = ''OK'', r_output = ''MACHINE IP METADATA'' @ [CHR 0x0A],
         r_ansible_facts = MachineFacts \<lparr>objects = [], fleet_machines = [], by_meta = [],
           by_ip = [], fleet_num_machines = Some 0\<rparr>\<rparr>
   \<and> r_changed \<lparr>r_changed = True, r_msg = ''OK'', r_output = ''MACHINE IP METADATA'' @ [CHR 0x0A],
         r_ansible_facts = MachineFacts \<lparr>objects = [], fleet_machines = [], by_meta = [],
           by_ip = [], fleet_num_machines = Some 0\<rparr>\<rparr> = True"
proof -
  have h: "main (listing_env (''MACHINE IP METADATA'' @ [CHR 0x0A])) default_fleet_params
     = ExitJson \<lparr>r_changed = True, r_msg = ''OK'', r_output = ''MACHINE IP METADATA'' @ [CHR 0x0A],
         r_ansible_facts = MachineFacts \<lparr>objects = [], fleet_machines = [], by_meta = [],
           by_ip = [], fleet_num_machines = Some 0\<rparr>\<rparr>"
    by code_simp
  show ?thesis using h main_exit_changed [OF h] by simp
qed

section \<open>Dicts and splitting\<close>

lemma dict_get_set [simp]: "dict_get (dict_set d k v) k' = (if k' = k then Some v else dict_get d k')"
  by (simp add: dict_get_def dict_set_def update_conv')

lemma dict_get_Nil [simp]: "dict_get [] k = None"
  by (simp add: dict_get_def)

lemma dict_get_get_or_new [simp]: "dict_get (get_or_new d k) x = dict_get2 d k x"
  by (simp add: get_or_new_def dict_get2_def split: option.splits)

lemma dict_get2_get_or_new [simp]: "dict_get2 (get_or_new d k) x y = dict_get3 d k x y"
  by (simp add: get_or_new_def dict_get2_def dict_get3_def split: option.splits)

lemma dict_get2_set [simp]:
  "dict_get2 (dict_set d a x) a' b = (if a' = a then dict_get x b else dict_get2 d a' b)"
  by (simp add: dict_get2_def)

lemma dict_get3_set [simp]:
  "dict_get3 (dict_set d a x) a' b c = (if a' = a then dict_get2 x b c else dict_get3 d a' b c)"
  by (simp add: dict_get3_def)

lemma dict_get3_Nil [simp]: "dict_get3 [] a b c = None"
  by (simp add: dict_get3_def)

lemma keys_dict_set: "map fst (dict_set d k v) = (if k \<in> set (map fst d) then map fst d else map fst d @ [k])"
  by (simp add: dict_set_def update_keys)

lemma dict_get_None_iff: "dict_get d k = None \<longleftrightarrow> k \<notin> set (map fst d)"
  by (simp add: dict_get_def map_of_eq_None_iff)

lemma split_sep_nonempty [simp]: "split_sep c s \<noteq> []"
  by (induction s) (auto split: list.splits)

lemma split_sep_length: "c \<in> set s \<Longrightarrow> 2 \<le> length (split_sep c s)"
  by (induction s) (auto split: list.splits)

lemma length_2_cases: "length xs = 2 \<Longrightarrow> \<exists>a b. xs = [a, b]"
  by (cases xs; cases "tl xs"; auto)

section \<open>The machine listing\<close>

lemma kv_pairs_Nil [simp]: "kv_pairs [] = []"
  by (simp add: kv_pairs_def)

lemma kv_pairs_Cons_skip:
  "CHR ''='' \<notin> set kv \<Longrightarrow> kv_pairs (kv # kvs) = kv_pairs kvs"
proof -
  assume "CHR ''='' \<notin> set kv"
  then have "split_sep CHR ''='' kv = [kv]"
    by (induction kv) (auto split: list.splits)
  then show ?thesis by (simp add: kv_pairs_def)
qed

lemma kv_pairs_Cons_pair:
  "split_sep CHR ''='' kv = [k, v] \<Longrightarrow> kv_pairs (kv # kvs) = (k, v) # kv_pairs kvs"
  by (simp add: kv_pairs_def)

text \<open>The loop over the segments returns when no segment has a second \<^verbatim>\<open>=\<close>.\<close>

lemma meta_loop_returns:
  "list_all (\<lambda>kv. length (split_sep CHR ''='' kv) \<le> 2) kvs
   \<Longrightarrow> \<exists>bm' md'. meta_loop r mid kvs (bm, md) = Inr (bm', md')"
proof (induction kvs arbitrary: bm md)
  case Nil
  then show ?case by simp
next
  case (Cons kv kvs)
  show ?case
  proof (cases "CHR ''='' \<in> set kv")
    case False
    with Cons show ?thesis by simp
  next
    case True
    with Cons.prems have "length (split_sep CHR ''='' kv) = 2"
      using split_sep_length [of "CHR ''=''" kv] by simp
    then obtain k v where "split_sep CHR ''='' kv = [k, v]"
      using length_2_cases by blast
    with True Cons show ?thesis by (simp add: Let_def)
  qed
qed

text \<open>What the loop leaves in \<^verbatim>\<open>by_meta\<close> and in the row's \<^verbatim>\<open>metadata\<close>.\<close>

lemma meta_loop_by_meta:
  "meta_loop r mid kvs (bm, md) = Inr (bm', md')
   \<Longrightarrow> dict_get3 bm' k v i
       = (if i = mid \<and> (k, v) \<in> set (kv_pairs kvs) then Some r else dict_get3 bm k v i)"
proof (induction kvs arbitrary: bm md)
  case Nil
  then show ?case by simp
next
  case (Cons kv kvs)
  show ?case
  proof (cases "CHR ''='' \<in> set kv")
    case False
    with Cons show ?thesis by (simp add: kv_pairs_Cons_skip)
  next
    case True
    with Cons.prems obtain k0 v0 where kv: "split_sep CHR ''='' kv = [k0, v0]"
      by (auto split: list.splits)
    with True Cons.prems have
      "meta_loop r mid kvs
         (dict_set bm k0 (dict_set (get_or_new bm k0) v0
            (dict_set (get_or_new (get_or_new bm k0) v0) mid r)),
          dict_set md k0 v0) = Inr (bm', md')"
      by (simp add: Let_def)
    from Cons.IH [OF this] show ?thesis
      by (auto simp: kv_pairs_Cons_pair [OF kv])
  qed
qed

lemma meta_loop_metadata:
  "meta_loop r mid kvs (bm, md) = Inr (bm', md')
   \<Longrightarrow> map_of md' = map_of md ++ map_of (rev (kv_pairs kvs))"
proof (induction kvs arbitrary: bm md)
  case Nil
  then show ?case by simp
next
  case (Cons kv kvs)
  show ?case
  proof (cases "CHR ''='' \<in> set kv")
    case False
    with Cons show ?thesis by (simp add: kv_pairs_Cons_skip)
  next
    case True
    with Cons.prems obtain k0 v0 where kv: "split_sep CHR ''='' kv = [k0, v0]"
      by (auto split: list.splits)
    with True Cons.prems have
      "meta_loop r mid kvs
         (dict_set bm k0 (dict_set (get_or_new bm k0) v0
            (dict_set (get_or_new (get_or_new bm k0) v0) mid r)),
          dict_set md k0 v0) = Inr (bm', md')"
      by (simp add: Let_def)
    from Cons.IH [OF this] show ?thesis
      by (auto simp: kv_pairs_Cons_pair [OF kv] dict_set_def update_conv' map_add_def fun_eq_iff
          split: option.splits)
  qed
qed

text \<open>One row: the test on the third token changes nothing, since an empty token has no pair.\<close>

lemma machine_row_eq:
  "machine_row line f =
     (let row = split_ws 3 line in
      if row = [] then Inr f
      else if length row < 3 then Inl IndexError
      else
        (case meta_loop (length (objects f)) (row ! 0) (split_sep CHR '','' (row ! 2))
                (by_meta f, []) of
           Inl e \<Rightarrow> Inl e
         | Inr (bm, metadata) \<Rightarrow>
             Inr (f\<lparr>objects := objects f
                        @ [\<lparr>md_id = row ! 0, md_ip = row ! 1, md_metadata = metadata\<rparr>],
                    fleet_machines := dict_set (fleet_machines f) (row ! 0) (length (objects f)),
                    by_meta := bm,
                    by_ip := (if row ! 1 \<noteq> []
                              then dict_set (by_ip f) (row ! 1)
                                     (dict_set (get_or_new (by_ip f) (row ! 1)) (row ! 0)
                                        (length (objects f)))
                              else by_ip f)\<rparr>)))"
  by (auto simp: machine_row_def py_index_def Let_def split: sum.splits prod.splits)

lemma machine_row_blank: "split_ws 3 line = [] \<Longrightarrow> machine_row line f = Inr f"
  by (simp add: machine_row_eq)

lemma machine_row_returns:
  assumes "split_ws 3 line \<noteq> []" and "machine_row_ok (split_ws 3 line)"
  shows "\<exists>f'. machine_row line f = Inr f'"
proof -
  obtain bm md where
    "meta_loop (length (objects f)) (split_ws 3 line ! 0)
       (split_sep CHR '','' (split_ws 3 line ! 2)) (by_meta f, []) = Inr (bm, md)"
    using assms(2) meta_loop_returns unfolding machine_row_ok_def by blast
  with assms show ?thesis
    by (simp add: machine_row_eq machine_row_ok_def Let_def)
qed

lemma machine_rows_returns:
  "list_all machine_row_ok (filter (\<lambda>row. row \<noteq> []) (map (split_ws 3) lines))
   \<Longrightarrow> \<exists>f'. machine_rows lines f = Inr f'"
proof (induction lines arbitrary: f)
  case Nil
  then show ?case by simp
next
  case (Cons line lines)
  show ?case
  proof (cases "split_ws 3 line = []")
    case True
    with Cons show ?thesis by (simp add: machine_row_blank)
  next
    case False
    with Cons.prems obtain f1 where "machine_row line f = Inr f1"
      using machine_row_returns by fastforce
    with False Cons show ?thesis by simp
  qed
qed

text \<open>
  What a non-blank row that is parsed leaves behind: its object is the last one, its id
  refers to it, and each of its pairs is in the metadata of the object and in \<^verbatim>\<open>by_meta\<close>.
\<close>

lemma machine_row_Inr:
  assumes "machine_row line f = Inr f'" and "split_ws 3 line = row" and "row \<noteq> []"
  shows "3 \<le> length row"
    and "length (objects f') = Suc (length (objects f))"
    and "\<exists>x. objects f' = objects f @ [x] \<and> md_id x = row ! 0 \<and> md_ip x = row ! 1
           \<and> map_of (md_metadata x) = map_of (rev (row_pairs row))"
    and "fleet_machines f' = dict_set (fleet_machines f) (row ! 0) (length (objects f))"
    and "\<And>k v i. dict_get3 (by_meta f') k v i
           = (if i = row ! 0 \<and> (k, v) \<in> set (row_pairs row) then Some (length (objects f))
              else dict_get3 (by_meta f) k v i)"
proof -
  from assms show len: "3 \<le> length row"
    by (auto simp: machine_row_eq Let_def split: if_splits)
  from assms len obtain bm md where
    ml: "meta_loop (length (objects f)) (row ! 0) (split_sep CHR '','' (row ! 2)) (by_meta f, [])
           = Inr (bm, md)"
    and f': "f' = f\<lparr>objects := objects f @ [\<lparr>md_id = row ! 0, md_ip = row ! 1, md_metadata = md\<rparr>],
                    fleet_machines := dict_set (fleet_machines f) (row ! 0) (length (objects f)),
                    by_meta := bm,
                    by_ip := (if row ! 1 \<noteq> []
                              then dict_set (by_ip f) (row ! 1)
                                     (dict_set (get_or_new (by_ip f) (row ! 1)) (row ! 0)
                                        (length (objects f)))
                              else by_ip f)\<rparr>"
    by (auto simp: machine_row_eq Let_def split: if_splits sum.splits)
  from f' show "length (objects f') = Suc (length (objects f))" by simp
  from f' show "fleet_machines f' = dict_set (fleet_machines f) (row ! 0) (length (objects f))"
    by simp
  from f' meta_loop_metadata [OF ml]
  show "\<exists>x. objects f' = objects f @ [x] \<and> md_id x = row ! 0 \<and> md_ip x = row ! 1
           \<and> map_of (md_metadata x) = map_of (rev (row_pairs row))"
    by (simp add: row_pairs_def)
  fix k v i
  from f' meta_loop_by_meta [OF ml, of k v i]
  show "dict_get3 (by_meta f') k v i
           = (if i = row ! 0 \<and> (k, v) \<in> set (row_pairs row) then Some (length (objects f))
              else dict_get3 (by_meta f) k v i)"
    by (simp add: row_pairs_def)
qed

lemma map_of_rev_distinct:
  "distinct (map fst ps) \<Longrightarrow> (k, v) \<in> set ps \<Longrightarrow> map_of (rev ps) k = Some v"
  by (rule map_of_is_SomeI) (simp_all add: rev_map [symmetric] del: rev_map)

lemma machine_recorded_row:
  assumes "machine_row line f = Inr f'" and "split_ws 3 line = row" and "row \<noteq> []"
    and "distinct (map fst (row_pairs row))"
  shows "machine_recorded f' row"
proof -
  note r = machine_row_Inr [OF assms(1-3)]
  from r(3) obtain x where x: "objects f' = objects f @ [x]" "md_id x = row ! 0"
    "md_ip x = row ! 1" "map_of (md_metadata x) = map_of (rev (row_pairs row))"
    by blast
  have "dict_get (md_metadata x) k = Some v" if "(k, v) \<in> set (row_pairs row)" for k v
    using that x(4) assms(4) by (simp add: dict_get_def map_of_rev_distinct)
  with x r(4) r(5) show ?thesis
    by (auto simp: machine_recorded_def list_all_iff)
qed

text \<open>The rows that follow leave alone what belongs to another id.\<close>

lemma machine_rows_objects:
  "machine_rows lines f = Inr f' \<Longrightarrow> \<exists>ext. objects f' = objects f @ ext"
proof (induction lines arbitrary: f)
  case Nil
  then show ?case by simp
next
  case (Cons line lines)
  from Cons.prems obtain f1 where f1: "machine_row line f = Inr f1"
    and rest: "machine_rows lines f1 = Inr f'"
    by (auto split: sum.splits)
  from Cons.IH [OF rest] obtain ext where ext: "objects f' = objects f1 @ ext" by blast
  show ?case
  proof (cases "split_ws 3 line = []")
    case True
    with f1 ext show ?thesis by (simp add: machine_row_blank)
  next
    case False
    from machine_row_Inr(3) [OF f1 refl False] ext show ?thesis by auto
  qed
qed

lemma machine_rows_other_id:
  "machine_rows lines f = Inr f'
   \<Longrightarrow> mid \<notin> set (map hd (filter (\<lambda>row. row \<noteq> []) (map (split_ws 3) lines)))
   \<Longrightarrow> dict_get (fleet_machines f') mid = dict_get (fleet_machines f) mid
       \<and> dict_get3 (by_meta f') k v mid = dict_get3 (by_meta f) k v mid"
proof (induction lines arbitrary: f)
  case Nil
  then show ?case by simp
next
  case (Cons line lines)
  from Cons.prems(1) obtain f1 where f1: "machine_row line f = Inr f1"
    and rest: "machine_rows lines f1 = Inr f'"
    by (auto split: sum.splits)
  show ?case
  proof (cases "split_ws 3 line = []")
    case True
    with f1 rest Cons show ?thesis by (simp add: machine_row_blank)
  next
    case False
    with Cons.prems(2) have ne: "mid \<noteq> split_ws 3 line ! 0"
      and notin: "mid \<notin> set (map hd (filter (\<lambda>row. row \<noteq> []) (map (split_ws 3) lines)))"
      by (simp_all add: hd_conv_nth)
    note r = machine_row_Inr [OF f1 refl False]
    from Cons.IH [OF rest notin] ne r(4) r(5) [of k v mid] show ?thesis by simp
  qed
qed

lemma machine_recorded_kept:
  assumes "machine_recorded f row" and "machine_rows lines f = Inr f'"
    and "row ! 0 \<notin> set (map hd (filter (\<lambda>row. row \<noteq> []) (map (split_ws 3) lines)))"
  shows "machine_recorded f' row"
proof -
  from assms(1) obtain r where r: "dict_get (fleet_machines f) (row ! 0) = Some r"
    "r < length (objects f)"
    by (auto simp: machine_recorded_def split: option.splits)
  from machine_rows_objects [OF assms(2)] obtain ext where "objects f' = objects f @ ext"
    by blast
  with r(2) have obj: "objects f' ! r = objects f ! r" "r < length (objects f')"
    by (simp_all add: nth_append)
  from assms(1) r obj machine_rows_other_id [OF assms(2,3)] show ?thesis
    by (simp add: machine_recorded_def list_all_iff split_def)
qed

lemma machine_rows_recorded:
  "machine_rows lines f = Inr f'
   \<Longrightarrow> distinct (map hd (filter (\<lambda>row. row \<noteq> []) (map (split_ws 3) lines)))
   \<Longrightarrow> list_all (\<lambda>row. distinct (map fst (row_pairs row)))
         (filter (\<lambda>row. row \<noteq> []) (map (split_ws 3) lines))
   \<Longrightarrow> list_all (machine_recorded f') (filter (\<lambda>row. row \<noteq> []) (map (split_ws 3) lines))"
proof (induction lines arbitrary: f)
  case Nil
  then show ?case by simp
next
  case (Cons line lines)
  from Cons.prems(1) obtain f1 where f1: "machine_row line f = Inr f1"
    and rest: "machine_rows lines f1 = Inr f'"
    by (auto split: sum.splits)
  show ?case
  proof (cases "split_ws 3 line = []")
    case True
    with Cons.IH [OF rest] Cons.prems(2,3) show ?thesis by simp
  next
    case False
    with Cons.prems(2,3) have
      d: "distinct (map hd (filter (\<lambda>row. row \<noteq> []) (map (split_ws 3) lines)))"
      and n: "split_ws 3 line ! 0
              \<notin> set (map hd (filter (\<lambda>row. row \<noteq> []) (map (split_ws 3) lines)))"
      and p: "distinct (map fst (row_pairs (split_ws 3 line)))"
      and ps: "list_all (\<lambda>row. distinct (map fst (row_pairs row)))
                 (filter (\<lambda>row. row \<noteq> []) (map (split_ws 3) lines))"
      by (simp_all add: hd_conv_nth)
    have "machine_recorded f1 (split_ws 3 line)"
      by (rule machine_recorded_row [OF f1 refl False p])
    then have "machine_recorded f' (split_ws 3 line)"
      by (rule machine_recorded_kept [OF _ rest n])
    with False Cons.IH [OF rest d ps] show ?thesis by simp
  qed
qed

text \<open>With ids that are new and differ from each other, \<^verbatim>\<open>machines\<close> gets one key for each row.\<close>

lemma machine_rows_keys:
  "machine_rows lines f = Inr f'
   \<Longrightarrow> distinct (map fst (fleet_machines f)
                  @ map hd (filter (\<lambda>row. row \<noteq> []) (map (split_ws 3) lines)))
   \<Longrightarrow> map fst (fleet_machines f')
       = map fst (fleet_machines f) @ map hd (filter (\<lambda>row. row \<noteq> []) (map (split_ws 3) lines))"
proof (induction lines arbitrary: f)
  case Nil
  then show ?case by simp
next
  case (Cons line lines)
  from Cons.prems(1) obtain f1 where f1: "machine_row line f = Inr f1"
    and rest: "machine_rows lines f1 = Inr f'"
    by (auto split: sum.splits)
  show ?case
  proof (cases "split_ws 3 line = []")
    case True
    with f1 rest Cons show ?thesis by (simp add: machine_row_blank)
  next
    case False
    note r = machine_row_Inr [OF f1 refl False]
    from False Cons.prems(2) have new: "split_ws 3 line ! 0 \<notin> set (map fst (fleet_machines f))"
      by (auto simp: hd_conv_nth)
    with r(4) have keys: "map fst (fleet_machines f1)
        = map fst (fleet_machines f) @ [split_ws 3 line ! 0]"
      by (simp add: keys_dict_set)
    with False Cons.prems(2) have
      "distinct (map fst (fleet_machines f1)
                 @ map hd (filter (\<lambda>row. row \<noteq> []) (map (split_ws 3) lines)))"
      by (auto simp: hd_conv_nth)
    from Cons.IH [OF rest this] keys False show ?thesis by (simp add: hd_conv_nth)
  qed
qed

lemma machine_recorded_count:
  "machine_recorded (f\<lparr>fleet_num_machines := x\<rparr>) = machine_recorded f"
  by (rule ext) (simp add: machine_recorded_def cong: option.case_cong)

text \<open>
  C6. The claim as amended: for a well-formed machine listing (every data row has an id, an
  ip and a metadata token whose segments hold at most one \<^verbatim>\<open>=\<close>, no key twice in a row, no
  id twice) with N data rows, the parser returns, \<^verbatim>\<open>fleet_machines\<close> has exactly N records,
  and every row is recorded: each of its metadata pairs is in the machine's metadata dict and
  in the by-metadata index under that key and value. The count \<^verbatim>\<open>fleet_num_machines\<close> is N
  when the text has a line break, and is not set when it has none (an empty text or a bare
  header line), where the dicts are empty.
\<close>

theorem machine_listing_facts:
  assumes "machine_listing_wf text"
  shows "\<exists>f. parse_facts ''list-machines'' args text = Inr (MachineFacts f)
           \<and> length (fleet_machines f) = length (machine_rows_of text)
           \<and> list_all (machine_recorded f) (machine_rows_of text)
           \<and> fleet_num_machines f
               = (if 1 < length (lines_of text) then Some (length (machine_rows_of text))
                  else None)
           \<and> (\<not> 1 < length (lines_of text)
                \<longrightarrow> objects f = [] \<and> fleet_machines f = [] \<and> by_meta f = [] \<and> by_ip f = [])"
proof (cases "1 < length (lines_of text)")
  case False
  then have "tl (lines_of text) = []"
    by (cases "lines_of text") auto
  with False show ?thesis
    by (simp add: parse_facts_def machine_rows_of_def lines_of_def)
next
  case True
  let ?f0 = "\<lparr>objects = [], fleet_machines = [], by_meta = [], by_ip = [],
               fleet_num_machines = None\<rparr>"
  from assms have ok: "list_all machine_row_ok (machine_rows_of text)"
    and ps: "list_all (\<lambda>row. distinct (map fst (row_pairs row))) (machine_rows_of text)"
    and d: "distinct (map hd (machine_rows_of text))"
    by (simp_all add: machine_listing_wf_def list_all_iff)
  from ok obtain f where f: "machine_rows (tl (lines_of text)) ?f0 = Inr f"
    using machine_rows_returns unfolding machine_rows_of_def by blast
  from d have "map fst (fleet_machines f) = map hd (machine_rows_of text)"
    using machine_rows_keys [OF f] by (simp add: machine_rows_of_def)
  then have "length (map fst (fleet_machines f)) = length (map hd (machine_rows_of text))"
    by simp
  then have len: "length (fleet_machines f) = length (machine_rows_of text)"
    by simp
  have "list_all (machine_recorded f) (machine_rows_of text)"
    using machine_rows_recorded [OF f] d ps by (simp add: machine_rows_of_def)
  then have rec: "list_all (machine_recorded (f\<lparr>fleet_num_machines := Some (length (fleet_machines f))\<rparr>))
      (machine_rows_of text)"
    by (simp add: machine_recorded_count)
  from True f have "parse_facts ''list-machines'' args text
      = Inr (MachineFacts (f\<lparr>fleet_num_machines := Some (length (fleet_machines f))\<rparr>))"
    by (simp add: parse_facts_def lines_of_def)
  with True len rec show ?thesis by simp
qed

text \<open>The sample listing: two records, the count two, and the pairs of the first row.\<close>

theorem machine_listing_facts_witness:
  "machine_listing_wf sample_machines
   \<and> (\<exists>f. parse_facts ''list-machines'' None sample_machines = Inr (MachineFacts f)
         \<and> length (fleet_machines f) = 2
         \<and> machine_recorded f [''bc85e23c'', ''1.1.1.1'', ''key1=val1,key2=val2'']
         \<and> fleet_num_machines f = Some 2)"
proof -
  have h: "machine_listing_wf sample_machines" by code_simp
  have rows: "machine_rows_of sample_machines
      = [[''bc85e23c'', ''1.1.1.1'', ''key1=val1,key2=val2''], [''d2f17670'', ''2.2.2.2'', ''-'']]"
    by code_simp
  have lines: "length (lines_of sample_machines) = 4" by code_simp
  show ?thesis using h machine_listing_facts [OF h, of None] by (auto simp: rows lines)
qed

text \<open>
  The claim as it was stated fails on an empty listing: the parser returns empty dicts, and
  no count.
\<close>

theorem empty_listing_no_count:
  "parse_facts ''list-machines'' None []
     = Inr (MachineFacts \<lparr>objects = [], fleet_machines = [], by_meta = [], by_ip = [],
                           fleet_num_machines = None\<rparr>)"
  by code_simp


section \<open>The unit listing\<close>

lemma split_ws_tokens: "t \<in> set (split_ws n s) \<Longrightarrow> t \<noteq> []"
proof (induction n arbitrary: s)
  case 0
  then show ?case by (auto simp: Let_def split: if_splits)
next
  case (Suc n)
  let ?r = "dropWhile isspace s"
  from Suc.prems have ne: "?r \<noteq> []"
    by (auto simp: Let_def split: if_splits)
  then have "\<not> isspace (hd ?r)" by (rule hd_dropWhile)
  with ne have tok: "takeWhile (\<lambda>c. \<not> isspace c) ?r \<noteq> []"
    by (simp add: takeWhile_eq_Nil_iff)
  from Suc.prems ne have "t = takeWhile (\<lambda>c. \<not> isspace c) ?r
      \<or> t \<in> set (split_ws n (dropWhile (\<lambda>c. \<not> isspace c) ?r))"
    by (simp add: Let_def del: dropWhile_eq_Nil_conv)
  with tok Suc.IH show ?case by auto
qed

lemma norm_tok_inj: "a \<noteq> [] \<Longrightarrow> b \<noteq> [] \<Longrightarrow> norm_tok a = norm_tok b \<Longrightarrow> a = b"
  by (auto simp: norm_tok_def split: if_splits)

lemma nullish_Some: "(if nullish (Some t) then None else Some t) = norm_tok t"
  by (simp add: nullish_def norm_tok_def)

text \<open>\<^verbatim>\<open>dict(pairs)\<close> and the loop that puts null for a dash.\<close>

lemma fold_dict_set_map_of:
  "map_of (fold (\<lambda>(k, v) d. dict_set d k v) ps d) = map_of d ++ map_of (rev ps)"
  by (induction ps arbitrary: d)
     (auto simp: dict_set_def update_conv' map_add_def fun_eq_iff split: option.splits)

lemma fold_dict_set_distinct:
  "distinct (map fst d) \<Longrightarrow> distinct (map fst (fold (\<lambda>(k, v) d. dict_set d k v) ps d))"
  by (induction ps arbitrary: d) (auto simp: dict_set_def distinct_update)

lemma dict_of_get: "dict_get (dict_of ps) k = map_of (rev ps) k"
  by (simp add: dict_get_def dict_of_def fold_dict_set_map_of)

lemma dict_of_distinct: "distinct (map fst (dict_of ps))"
  by (simp add: dict_of_def fold_dict_set_distinct)

lemma fold_nullish_get:
  "dict_get (fold (\<lambda>(k, v) d. if nullish v then dict_set d k None else d) xs d) k
     = (if \<exists>v. (k, v) \<in> set xs \<and> nullish v then Some None else dict_get d k)"
  by (induction xs arbitrary: d) auto

lemma normalize_get:
  assumes "distinct (map fst ud)"
  shows "dict_get (normalize ud) k
     = (case dict_get ud k of None \<Rightarrow> None | Some v \<Rightarrow> Some (if nullish v then None else v))"
proof (cases "dict_get ud k")
  case None
  then have "\<And>v. (k, v) \<notin> set ud"
    by (auto simp: dict_get_def map_of_eq_None_iff image_iff)
  with None show ?thesis by (simp add: normalize_def fold_nullish_get)
next
  case (Some v)
  have iff: "\<And>y. (map_of ud k = Some y) = ((k, y) \<in> set ud)"
    using assms by simp
  from Some have "map_of ud k = Some v"
    by (simp add: dict_get_def)
  with iff have "\<And>v'. (k, v') \<in> set ud \<longleftrightarrow> v' = v"
    by (metis option.inject)
  then have "(\<exists>v'. (k, v') \<in> set ud \<and> nullish v') = nullish v"
    by simp
  with Some show ?thesis by (simp add: normalize_def fold_nullish_get)
qed

lemma make_unit_data_get:
  "dict_get (make_unit_data header row) k
     = (case map_of (rev (zip header (map Some row))) k of
          None \<Rightarrow> None
        | Some v \<Rightarrow> Some (if nullish v then None else v))"
  by (simp add: make_unit_data_def normalize_get dict_of_distinct dict_of_get)

lemma make_unit_data_keys:
  "dict_get (make_unit_data header row) k \<noteq> None \<longleftrightarrow> k \<in> set (take (length row) header)"
proof -
  have "map fst (rev (zip header (map Some row))) = rev (take (length row) header)"
    by (simp add: map_fst_zip_take min_def rev_map [symmetric] del: rev_map)
  then have "fst ` set (rev (zip header (map Some row))) = set (take (length row) header)"
    by (metis set_map set_rev)
  then have "map_of (rev (zip header (map Some row))) k = None
      \<longleftrightarrow> k \<notin> set (take (length row) header)"
    by (simp only: map_of_eq_None_iff)
  then show ?thesis
    by (cases "map_of (rev (zip header (map Some row))) k") (simp_all add: make_unit_data_get)
qed

lemma zip_take_right: "zip xs ys = zip xs (take (length xs) ys)"
  by (induction xs ys rule: list_induct2') auto

text \<open>The six columns: every field of the record is the row's token, null for a dash.\<close>

lemma make_unit_data_columns:
  assumes "6 \<le> length row" and "j < 6"
  shows "dict_get (make_unit_data unit_columns row) (unit_columns ! j) = Some (norm_tok (row ! j))"
proof -
  have d: "distinct unit_columns" and l: "length unit_columns = 6"
    by (simp_all add: unit_columns_def)
  have z: "zip unit_columns (map Some row) = zip unit_columns (take 6 (map Some row))"
    using l zip_take_right [of unit_columns "map Some row"] by simp
  have dz: "distinct (map fst (zip unit_columns (take 6 (map Some row))))"
    using d l assms(1) by (simp add: map_fst_zip_take)
  have "map_of (zip unit_columns (take 6 (map Some row))) (unit_columns ! j)
      = Some (take 6 (map Some row) ! j)"
    using d l assms by (intro map_of_zip_nth) simp_all
  then have "(unit_columns ! j, take 6 (map Some row) ! j)
      \<in> set (zip unit_columns (take 6 (map Some row)))"
    by (rule map_of_SomeD)
  with dz have "map_of (rev (zip unit_columns (take 6 (map Some row)))) (unit_columns ! j)
      = Some (take 6 (map Some row) ! j)"
    by (rule map_of_rev_distinct)
  also have "\<dots> = Some (Some (row ! j))"
    using assms by simp
  finally show ?thesis
    by (simp add: make_unit_data_get z nullish_Some)
qed

text \<open>
  The loop over the index fields returns when the record has all of them and \<^verbatim>\<open>hash\<close>, and
  \<^verbatim>\<open>by\<close> has a dict for each; it takes no field away from \<^verbatim>\<open>by\<close>.
\<close>

lemma by_loop_fields:
  "by_loop bks ud bx = Inr by' \<Longrightarrow> dict_get bx bk \<noteq> None \<Longrightarrow> dict_get by' bk \<noteq> None"
proof (induction bks arbitrary: bx)
  case Nil
  then show ?case by simp
next
  case (Cons b bks)
  then show ?case
    by (auto split: option.splits if_splits)
qed

lemma by_loop_returns:
  "\<forall>bk \<in> set bks. dict_get ud bk \<noteq> None \<and> dict_get bx bk \<noteq> None
   \<Longrightarrow> dict_get ud ''hash'' \<noteq> None
   \<Longrightarrow> \<exists>by'. by_loop bks ud bx = Inr by'"
proof (induction bks arbitrary: bx)
  case Nil
  then show ?case by simp
next
  case (Cons b bks)
  from Cons.prems obtain v idx h where v: "dict_get ud b = Some v"
    and idx: "dict_get bx b = Some idx" and h: "dict_get ud ''hash'' = Some h"
    by auto
  have keep: "\<forall>bk \<in> set bks. dict_get ud bk \<noteq> None \<and> dict_get (dict_set bx b x) bk \<noteq> None" for x
    using Cons.prems(1) by simp
  show ?case
  proof (cases "v = None \<or> v = Some []")
    case True
    with v Cons.IH [of bx] Cons.prems show ?thesis by auto
  next
    case False
    then obtain s where s: "v = Some s" "s \<noteq> []" by auto
    from Cons.IH [OF keep Cons.prems(2)] v idx h s show ?thesis by simp
  qed
qed

text \<open>
  What the loop leaves in \<^verbatim>\<open>by\<close>: the record is added under each of the fields for which it
  has a value, under that value and the record's hash.
\<close>

lemma by_loop_index:
  "by_loop bks ud bx = Inr by' \<Longrightarrow> dict_get ud ''hash'' = Some h
   \<Longrightarrow> dict_get3 by' bk v h'
       = (if bk \<in> set bks \<and> dict_get ud bk = Some (Some v) \<and> v \<noteq> [] \<and> h' = h then Some ud
          else dict_get3 bx bk v h')"
proof (induction bks arbitrary: bx)
  case Nil
  then show ?case by simp
next
  case (Cons b bks)
  from Cons.prems(1) obtain x where x: "dict_get ud b = Some x"
    by (auto split: option.splits)
  show ?case
  proof (cases "x = None \<or> x = Some []")
    case True
    with x Cons.prems have "by_loop bks ud bx = Inr by'" by auto
    from Cons.IH [OF this Cons.prems(2)] True x show ?thesis by auto
  next
    case False
    then obtain s where s: "x = Some s" "s \<noteq> []" by auto
    with x Cons.prems obtain idx where idx: "dict_get bx b = Some idx"
      and rest: "by_loop bks ud (dict_set bx b (dict_set idx s (dict_set (get_or_new idx s) h ud)))
                   = Inr by'"
      by (auto split: option.splits)
    from idx have "dict_get2 idx v h' = dict_get3 bx b v h'" for v h'
      by (simp add: dict_get3_def)
    with Cons.IH [OF rest Cons.prems(2)] x s show ?thesis by auto
  qed
qed

text \<open>One row of the unit listing.\<close>

lemma unit_row_blank: "split_ws 7 line = [] \<Longrightarrow> unit_row header line f = Inr f"
  by (simp add: unit_row_def)

lemma unit_row_returns:
  assumes "unit_row_ok header (split_ws 7 line)"
    and "\<forall>bk \<in> set by_keys. dict_get (fleet_units_by f) bk \<noteq> None"
  shows "\<exists>f'. unit_row header line f = Inr f'
           \<and> (\<forall>bk \<in> set by_keys. dict_get (fleet_units_by f') bk \<noteq> None)"
proof (cases "split_ws 7 line = []")
  case True
  with assms(2) show ?thesis by (simp add: unit_row_blank)
next
  case False
  let ?ud = "make_unit_data header (split_ws 7 line)"
  from assms(1) have h: "dict_get ?ud ''hash'' \<noteq> None"
    and ks: "\<forall>bk \<in> set by_keys. dict_get ?ud bk \<noteq> None"
    by (simp_all add: unit_row_ok_def list_all_iff make_unit_data_keys [symmetric])
  from ks assms(2) h obtain by' where by': "by_loop by_keys ?ud (fleet_units_by f) = Inr by'"
    using by_loop_returns [of by_keys ?ud "fleet_units_by f"] by blast
  from by' assms(2) have "\<forall>bk \<in> set by_keys. dict_get by' bk \<noteq> None"
    using by_loop_fields by blast
  with False by' h show ?thesis
    by (auto simp: unit_row_def Let_def)
qed

lemma unit_rows_returns:
  "list_all (unit_row_ok header) (filter (\<lambda>row. row \<noteq> []) (map (split_ws 7) lines))
   \<Longrightarrow> \<forall>bk \<in> set by_keys. dict_get (fleet_units_by f) bk \<noteq> None
   \<Longrightarrow> \<exists>f'. unit_rows header lines f = Inr f'"
proof (induction lines arbitrary: f)
  case Nil
  then show ?case by simp
next
  case (Cons line lines)
  show ?case
  proof (cases "split_ws 7 line = []")
    case True
    with Cons show ?thesis by (simp add: unit_row_blank)
  next
    case False
    with Cons.prems have "unit_row_ok header (split_ws 7 line)" by simp
    from unit_row_returns [OF this Cons.prems(2)] obtain f1
      where "unit_row header line f = Inr f1"
        and "\<forall>bk \<in> set by_keys. dict_get (fleet_units_by f1) bk \<noteq> None"
      by blast
    with False Cons.IH [of f1] Cons.prems(1) show ?thesis by simp
  qed
qed

section \<open>When parse_facts returns\<close>

text \<open>
  The listings on which \<^verbatim>\<open>parse_facts\<close> returns a facts dict: each data row of a machine
  listing has at least three tokens and no metadata segment with more than one \<^verbatim>\<open>=\<close> (a
  segment without \<^verbatim>\<open>=\<close> is passed over), and each data row of a unit listing has a token for
  \<^verbatim>\<open>hash\<close> and for each indexed column of the header.
\<close>

lemma parse_facts_returns:
  assumes "listing_ok command text"
  shows "\<exists>facts. parse_facts command args text = Inr facts"
proof -
  consider (machines) "command = ''list-machines''"
    | (units) "command \<noteq> ''list-machines''" "command = ''list-units''"
    | (other) "command \<noteq> ''list-machines''" "command \<noteq> ''list-units''"
    by blast
  then show ?thesis
  proof cases
    case machines
    with assms have "list_all machine_row_ok (machine_rows_of text)"
      by (simp add: listing_ok_def)
    then obtain f where "machine_rows (tl (lines_of text))
        \<lparr>objects = [], fleet_machines = [], by_meta = [], by_ip = [],
         fleet_num_machines = None\<rparr> = Inr f"
      using machine_rows_returns unfolding machine_rows_of_def by blast
    with machines show ?thesis
      by (auto simp: parse_facts_def lines_of_def Let_def)
  next
    case units
    let ?f0 = "\<lparr>fleet_units = [], fleet_units_by = map (\<lambda>by_key. (by_key, [])) by_keys,
                 fleet_num_units = None\<rparr>"
    from units assms have "list_all (unit_row_ok (unit_header_of text)) (unit_rows_of text)"
      by (simp add: listing_ok_def)
    moreover have "\<forall>bk \<in> set by_keys. dict_get (fleet_units_by ?f0) bk \<noteq> None"
      by (simp add: by_keys_def dict_get_def)
    ultimately obtain f where "unit_rows (unit_header_of text) (tl (lines_of text)) ?f0 = Inr f"
      using unit_rows_returns unfolding unit_rows_of_def by blast
    with units show ?thesis
      by (auto simp: parse_facts_def lines_of_def unit_header_of_def Let_def)
  next
    case other
    then show ?thesis by (simp add: parse_facts_def)
  qed
qed

text \<open>The sample unit listing is accepted, and parsed.\<close>

lemma parse_facts_returns_sample:
  "listing_ok ''list-units'' sample_units
   \<and> (\<exists>facts. parse_facts ''list-units'' (dict_get CMD_ARGS ''list-units'') sample_units
                = Inr facts)"
proof -
  have h: "listing_ok ''list-units'' sample_units" by code_simp
  show ?thesis using h parse_facts_returns [OF h] by simp
qed

text \<open>
  C2. The claim: \<^verbatim>\<open>parse_facts\<close> returns a facts dict for every input text and never raises on
  malformed input, be it a row with too few columns or a metadata segment without \<^verbatim>\<open>=\<close> or
  with several. The code does otherwise. It passes over a segment without \<^verbatim>\<open>=\<close>, but a
  segment with two makes \<^verbatim>\<open>k, v = kv.split('=')\<close> raise ValueError, and nothing catches it.
\<close>

theorem several_equals_raises:
  "parse_facts ''list-machines'' (dict_get CMD_ARGS ''list-machines'')
     (''MACHINE IP METADATA'' @ [CHR 0x0A] @ ''d2f17670 2.2.2.2 a=b=c'') = Inl ValueError"
  by code_simp

text \<open>
  Rows with too few columns raise as well: IndexError for a machine row of one token,
  KeyError for a unit row that stops before the indexed columns.
\<close>

lemma single_token_row_raises:
  "parse_facts ''list-machines'' (dict_get CMD_ARGS ''list-machines'')
     (''MACHINE IP METADATA'' @ [CHR 0x0A] @ ''d2f17670'') = Inl IndexError"
  by code_simp

lemma short_unit_row_raises:
  "parse_facts ''list-units'' (dict_get CMD_ARGS ''list-units'')
     (''HASH UNIT LOAD ACTIVE SUB MACHINE'' @ [CHR 0x0A] @ ''2783a93 registry.service'')
     = Inl KeyError"
  by code_simp

section \<open>What a unit listing leaves in the facts\<close>

text \<open>A row with six tokens under the six columns, when it is parsed.\<close>

lemma norm_tok_Some: "norm_tok t = Some v \<Longrightarrow> v \<noteq> []"
  by (auto simp: norm_tok_def split: if_splits)

lemma by_keys_columns:
  assumes "bk \<in> set by_keys"
  shows "\<exists>j < 6. bk = unit_columns ! j"
proof -
  from assms have "bk = unit_columns ! 2 \<or> bk = unit_columns ! 3 \<or> bk = unit_columns ! 4
      \<or> bk = unit_columns ! 5"
    by (auto simp: by_keys_def unit_columns_def)
  moreover have "(2::nat) < 6" "(3::nat) < 6" "(4::nat) < 6" "(5::nat) < 6"
    by simp_all
  ultimately show ?thesis by blast
qed

lemma unit_row_ok_six:
  assumes "6 \<le> length row"
  shows "unit_row_ok unit_columns row"
proof -
  from assms have "take (length row) unit_columns = unit_columns"
    by (simp add: unit_columns_def)
  then have "unit_row_ok unit_columns row = list_all (\<lambda>k. k \<in> set unit_columns) (''hash'' # by_keys)"
    by (simp add: unit_row_ok_def)
  then show ?thesis
    by (simp add: unit_columns_def by_keys_def)
qed

lemma unit_row_Inr:
  assumes "unit_row unit_columns line f = Inr f'" and "split_ws 7 line = row"
    and "6 \<le> length row"
  shows "fleet_units f'
           = dict_set (fleet_units f) (norm_tok (row ! 0)) (make_unit_data unit_columns row)"
    and "\<And>bk v h. dict_get3 (fleet_units_by f') bk v h
           = (if bk \<in> set by_keys \<and> dict_get (make_unit_data unit_columns row) bk = Some (Some v)
                 \<and> h = norm_tok (row ! 0)
              then Some (make_unit_data unit_columns row)
              else dict_get3 (fleet_units_by f) bk v h)"
proof -
  let ?ud = "make_unit_data unit_columns row"
  from assms(3) have ne: "row \<noteq> []" by auto
  have "dict_get ?ud (unit_columns ! 0) = Some (norm_tok (row ! 0))"
    using assms(3) by (intro make_unit_data_columns) simp_all
  then have h: "dict_get ?ud ''hash'' = Some (norm_tok (row ! 0))"
    by (simp add: unit_columns_def)
  from assms(1,2) ne h obtain by' where by': "by_loop by_keys ?ud (fleet_units_by f) = Inr by'"
    and f': "f' = f\<lparr>fleet_units := dict_set (fleet_units f) (norm_tok (row ! 0)) ?ud,
                    fleet_units_by := by'\<rparr>"
    by (auto simp: unit_row_def Let_def split: sum.splits)
  from f' show "fleet_units f' = dict_set (fleet_units f) (norm_tok (row ! 0)) ?ud"
    by simp
  fix bk v h'
  have nonempty: "v \<noteq> []" if "bk \<in> set by_keys" and "dict_get ?ud bk = Some (Some v)"
  proof -
    from that(1) obtain j where "j < 6" "bk = unit_columns ! j"
      using by_keys_columns by blast
    with that(2) assms(3) have "norm_tok (row ! j) = Some v"
      by (simp add: make_unit_data_columns)
    then show ?thesis by (rule norm_tok_Some)
  qed
  from by_loop_index [OF by' h, of bk v h'] f' nonempty
  show "dict_get3 (fleet_units_by f') bk v h'
           = (if bk \<in> set by_keys \<and> dict_get ?ud bk = Some (Some v) \<and> h' = norm_tok (row ! 0)
              then Some ?ud else dict_get3 (fleet_units_by f) bk v h')"
    by auto
qed

lemma unit_recorded_row:
  assumes "unit_row unit_columns line f = Inr f'" and "split_ws 7 line = row"
    and "6 \<le> length row"
    and "\<And>bk v. dict_get3 (fleet_units_by f) bk v (norm_tok (row ! 0)) = None"
  shows "unit_recorded f' row"
  using unit_row_Inr [OF assms(1-3)] assms(3,4)
  by (simp add: unit_recorded_def make_unit_data_columns)

text \<open>The rows that follow leave alone what belongs to another hash.\<close>

lemma unit_rows_other_hash:
  "unit_rows unit_columns lines f = Inr f'
   \<Longrightarrow> list_all (\<lambda>row. 6 \<le> length row) (filter (\<lambda>row. row \<noteq> []) (map (split_ws 7) lines))
   \<Longrightarrow> h \<notin> set (map (\<lambda>row. norm_tok (row ! 0))
                  (filter (\<lambda>row. row \<noteq> []) (map (split_ws 7) lines)))
   \<Longrightarrow> dict_get (fleet_units f') h = dict_get (fleet_units f) h
       \<and> dict_get3 (fleet_units_by f') bk v h = dict_get3 (fleet_units_by f) bk v h"
proof (induction lines arbitrary: f)
  case Nil
  then show ?case by simp
next
  case (Cons line lines)
  from Cons.prems(1) obtain f1 where f1: "unit_row unit_columns line f = Inr f1"
    and rest: "unit_rows unit_columns lines f1 = Inr f'"
    by (auto split: sum.splits)
  show ?case
  proof (cases "split_ws 7 line = []")
    case True
    with f1 rest Cons show ?thesis by (simp add: unit_row_blank)
  next
    case False
    with Cons.prems(2,3) have len: "6 \<le> length (split_ws 7 line)"
      and lens: "list_all (\<lambda>row. 6 \<le> length row)
                   (filter (\<lambda>row. row \<noteq> []) (map (split_ws 7) lines))"
      and ne: "h \<noteq> norm_tok (split_ws 7 line ! 0)"
      and notin: "h \<notin> set (map (\<lambda>row. norm_tok (row ! 0))
                    (filter (\<lambda>row. row \<noteq> []) (map (split_ws 7) lines)))"
      by auto
    note r = unit_row_Inr [OF f1 refl len]
    from Cons.IH [OF rest lens notin] ne r(1) r(2) [of bk v h] show ?thesis by simp
  qed
qed

lemma unit_recorded_kept:
  assumes "unit_recorded f row" and "unit_rows unit_columns lines f = Inr f'"
    and "list_all (\<lambda>row. 6 \<le> length row) (filter (\<lambda>row. row \<noteq> []) (map (split_ws 7) lines))"
    and "norm_tok (row ! 0) \<notin> set (map (\<lambda>row. norm_tok (row ! 0))
                  (filter (\<lambda>row. row \<noteq> []) (map (split_ws 7) lines)))"
  shows "unit_recorded f' row"
  using assms(1) unit_rows_other_hash [OF assms(2-4)]
  by (auto simp: unit_recorded_def split: option.splits)

lemma unit_rows_recorded:
  "unit_rows unit_columns lines f = Inr f'
   \<Longrightarrow> list_all (\<lambda>row. 6 \<le> length row) (filter (\<lambda>row. row \<noteq> []) (map (split_ws 7) lines))
   \<Longrightarrow> distinct (map (\<lambda>row. norm_tok (row ! 0))
                  (filter (\<lambda>row. row \<noteq> []) (map (split_ws 7) lines)))
   \<Longrightarrow> \<forall>row \<in> set (filter (\<lambda>row. row \<noteq> []) (map (split_ws 7) lines)).
         \<forall>bk v. dict_get3 (fleet_units_by f) bk v (norm_tok (row ! 0)) = None
   \<Longrightarrow> list_all (unit_recorded f') (filter (\<lambda>row. row \<noteq> []) (map (split_ws 7) lines))"
proof (induction lines arbitrary: f)
  case Nil
  then show ?case by simp
next
  case (Cons line lines)
  let ?rows = "filter (\<lambda>row. row \<noteq> []) (map (split_ws 7) lines)"
  from Cons.prems(1) obtain f1 where f1: "unit_row unit_columns line f = Inr f1"
    and rest: "unit_rows unit_columns lines f1 = Inr f'"
    by (auto split: sum.splits)
  show ?case
  proof (cases "split_ws 7 line = []")
    case True
    with f1 have "f1 = f" by (simp add: unit_row_blank)
    with True rest Cons.IH [of f] Cons.prems(2-4) show ?thesis by simp
  next
    case False
    let ?row = "split_ws 7 line"
    from False Cons.prems(2-4) have len: "6 \<le> length ?row"
      and lens: "list_all (\<lambda>row. 6 \<le> length row) ?rows"
      and n: "norm_tok (?row ! 0) \<notin> set (map (\<lambda>row. norm_tok (row ! 0)) ?rows)"
      and d: "distinct (map (\<lambda>row. norm_tok (row ! 0)) ?rows)"
      and fresh: "\<And>bk v. dict_get3 (fleet_units_by f) bk v (norm_tok (?row ! 0)) = None"
      and freshs: "\<forall>row \<in> set ?rows.
                     \<forall>bk v. dict_get3 (fleet_units_by f) bk v (norm_tok (row ! 0)) = None"
      by auto
    note r = unit_row_Inr [OF f1 refl len]
    have "unit_recorded f1 ?row"
      by (rule unit_recorded_row [OF f1 refl len fresh])
    then have here: "unit_recorded f' ?row"
      by (rule unit_recorded_kept [OF _ rest lens n])
    have "\<forall>row \<in> set ?rows.
            \<forall>bk v. dict_get3 (fleet_units_by f1) bk v (norm_tok (row ! 0)) = None"
    proof (intro ballI allI)
      fix row bk v
      assume row: "row \<in> set ?rows"
      then have "norm_tok (row ! 0) \<in> (\<lambda>row. norm_tok (row ! 0)) ` set ?rows"
        by (rule imageI)
      with n have "norm_tok (row ! 0) \<noteq> norm_tok (?row ! 0)"
        by (metis set_map)
      moreover from row freshs
      have "dict_get3 (fleet_units_by f) bk v (norm_tok (row ! 0)) = None"
        by blast
      ultimately
      show "dict_get3 (fleet_units_by f1) bk v (norm_tok (row ! 0)) = None"
        using r(2) [of bk v "norm_tok (row ! 0)"] by simp
    qed
    from Cons.IH [OF rest lens d this] here False show ?thesis by simp
  qed
qed

lemma unit_recorded_count:
  "unit_recorded (f\<lparr>fleet_num_units := x\<rparr>) = unit_recorded f"
  by (rule ext) (simp add: unit_recorded_def cong: option.case_cong)

lemma distinct_hashes:
  assumes "distinct (map hd (filter (\<lambda>row. row \<noteq> []) (map (split_ws n) lines)))"
  shows "distinct (map (\<lambda>row. norm_tok (row ! 0))
           (filter (\<lambda>row. row \<noteq> []) (map (split_ws n) lines)))"
proof -
  let ?rows = "filter (\<lambda>row. row \<noteq> []) (map (split_ws n) lines)"
  have tok: "hd row \<noteq> []" if "row \<in> set ?rows" for row
  proof -
    from that obtain line where "row = split_ws n line" "row \<noteq> []" by auto
    then have "hd row \<in> set (split_ws n line)" by simp
    then show ?thesis by (rule split_ws_tokens)
  qed
  have "inj_on norm_tok (set (map hd ?rows))"
  proof (rule inj_onI)
    fix a b
    assume a: "a \<in> set (map hd ?rows)" and b: "b \<in> set (map hd ?rows)"
      and eq: "norm_tok a = norm_tok b"
    from a obtain ra where ra: "ra \<in> set ?rows" "a = hd ra" by auto
    from b obtain rb where rb: "rb \<in> set ?rows" "b = hd rb" by auto
    from tok [OF ra(1)] ra(2) have "a \<noteq> []" by simp
    moreover from tok [OF rb(1)] rb(2) have "b \<noteq> []" by simp
    ultimately show "a = b" using eq by (rule norm_tok_inj)
  qed
  then have "distinct (map norm_tok (map hd ?rows))"
    by (subst distinct_map) (intro conjI assms)
  moreover have "map norm_tok (map hd ?rows) = map (\<lambda>row. norm_tok (row ! 0)) ?rows"
    by (simp add: hd_conv_nth)
  ultimately show ?thesis by (simp only:)
qed

text \<open>
  C7. The claim as amended: for a well-formed unit listing in which no hash occurs twice
  (the six columns as header, six tokens or more in each data row) the parser returns, and
  every data row is recorded: each field of the unit's record is the row's token, or null
  when the token is a dash or empty; each of the four indexes holds the unit's hash under
  the field's value when the field is not null, and under no value when it is null.
\<close>

theorem unit_listing_facts:
  assumes "unit_listing_wf text"
  shows "\<exists>f. parse_facts ''list-units'' args text = Inr (UnitFacts f)
           \<and> list_all (unit_recorded f) (unit_rows_of text)"
proof (cases "1 < length (lines_of text)")
  case False
  then have "tl (lines_of text) = []"
    by (cases "lines_of text") auto
  with False show ?thesis
    by (simp add: parse_facts_def unit_rows_of_def lines_of_def)
next
  case True
  let ?f0 = "\<lparr>fleet_units = [], fleet_units_by = map (\<lambda>by_key. (by_key, [])) by_keys,
               fleet_num_units = None\<rparr>"
  from assms have hdr: "unit_header_of text = unit_columns"
    and lens: "list_all (\<lambda>row. 6 \<le> length row) (unit_rows_of text)"
    and d: "distinct (map hd (unit_rows_of text))"
    by (simp_all add: unit_listing_wf_def)
  from lens have "list_all (unit_row_ok unit_columns) (unit_rows_of text)"
    by (simp add: list_all_iff unit_row_ok_six)
  moreover have "\<forall>bk \<in> set by_keys. dict_get (fleet_units_by ?f0) bk \<noteq> None"
    by (simp add: by_keys_def dict_get_def)
  ultimately obtain f where f: "unit_rows unit_columns (tl (lines_of text)) ?f0 = Inr f"
    using unit_rows_returns unfolding unit_rows_of_def by blast
  have fresh: "dict_get3 (fleet_units_by ?f0) bk v h = None" for bk v h
    by (simp add: by_keys_def dict_get3_def dict_get2_def dict_get_def)
  from d have "distinct (map (\<lambda>row. norm_tok (row ! 0)) (unit_rows_of text))"
    unfolding unit_rows_of_def by (rule distinct_hashes)
  with lens fresh have "list_all (unit_recorded f) (unit_rows_of text)"
    using unit_rows_recorded [OF f] by (simp add: unit_rows_of_def)
  then have rec: "list_all (unit_recorded (f\<lparr>fleet_num_units := Some (length (fleet_units f))\<rparr>))
      (unit_rows_of text)"
    by (simp add: unit_recorded_count)
  from True f hdr have "parse_facts ''list-units'' args text
      = Inr (UnitFacts (f\<lparr>fleet_num_units := Some (length (fleet_units f))\<rparr>))"
    by (simp add: parse_facts_def lines_of_def unit_header_of_def)
  with rec show ?thesis by simp
qed

text \<open>
  The sample listing: both rows are recorded, and the unit that is not loaded is in the
  index of no load state.
\<close>

theorem unit_listing_facts_witness:
  "unit_listing_wf sample_units
   \<and> (\<exists>f. parse_facts ''list-units'' None sample_units = Inr (UnitFacts f)
         \<and> unit_recorded f
             [''2783a93'', ''registry.service'', ''loaded'', ''active'', ''running'',
              ''2f1d2afe/192.168.1.1'']
         \<and> unit_recorded f [''5c4e1a0'', ''hello.service'', ''-'', ''-'', ''-'', ''-''])"
proof -
  have h: "unit_listing_wf sample_units" by code_simp
  have rows: "unit_rows_of sample_units
      = [[''2783a93'', ''registry.service'', ''loaded'', ''active'', ''running'',
          ''2f1d2afe/192.168.1.1''],
         [''5c4e1a0'', ''hello.service'', ''-'', ''-'', ''-'', ''-'']]"
    by code_simp
  show ?thesis using h unit_listing_facts [OF h, of None] by (auto simp: rows)
qed


text \<open>
  The claim as it was stated fails when two rows share a hash: the record of the hash is
  the one of the last row, whose load state is null, and the hash is still in the index of
  the load states, under the value of the first row.
\<close>

theorem shared_hash_stays_indexed:
  "(case parse_facts ''list-units'' None shared_hash_units of
      Inl e \<Rightarrow> False
    | Inr facts \<Rightarrow>
        (case facts of
           UnitFacts f \<Rightarrow>
             dict_get2 (fleet_units f) (Some ''abc'') ''load'' = Some None
             \<and> dict_get3 (fleet_units_by f) ''load'' ''loaded'' (Some ''abc'') \<noteq> None
         | _ \<Rightarrow> False))"
  by code_simp

end
